theory Spec2Isabelle
  imports Complex_Main "HOL-Library.Char_ord" "HOL-Library.List_Lexorder"
begin

section \<open>The Sick LMS 2xx driver interface used by the consumers\<close>

text \<open>
  The three source files (the MATLAB bridge \<^verbatim>\<open>lmsmex.cc\<close> and the two example programs)
  are consumers of the class \<^verbatim>\<open>SickLMS\<close>, whose implementation is not among them. The
  consumers are embedded below as they are written; the class is a parameter: a record of
  its methods over an opaque object state \<open>'s\<close>, which carries everything the behaviour of
  one driver object depends on (its fields and the device at the other end of the line).
\<close>

datatype sick_lms_baud_t =
  SICK_BAUD_9600 | SICK_BAUD_19200 | SICK_BAUD_38400 | SICK_BAUD_500K | SICK_BAUD_UNKNOWN

datatype sick_lms_scan_angle_t =
  SICK_SCAN_ANGLE_100 | SICK_SCAN_ANGLE_180 | SICK_SCAN_ANGLE_UNKNOWN

datatype sick_lms_scan_resolution_t =
  SICK_SCAN_RESOLUTION_25 | SICK_SCAN_RESOLUTION_50 | SICK_SCAN_RESOLUTION_100
  | SICK_SCAN_RESOLUTION_UNKNOWN

datatype sick_lms_measuring_units_t =
  SICK_MEASURING_UNITS_CM | SICK_MEASURING_UNITS_MM | SICK_MEASURING_UNITS_UNKNOWN

datatype sick_lms_measuring_mode_t =
  SICK_MS_MODE_RANGE | SICK_MS_MODE_REFLECTIVITY | SICK_MS_MODE_OTHER nat
  | SICK_MS_MODE_UNKNOWN

text \<open>
  The exception classes the consumers name in their handlers. \<open>SickException\<close> is the base
  class (and stands for every subclass the consumers do not name); \<open>Other_exception\<close> is
  anything that does not derive from it. The string is what \<^verbatim>\<open>what()\<close> returns.
\<close>

datatype sick_exception =
  SickTimeoutException string
  | SickIOException string
  | SickConfigException string
  | SickException string
  | Other_exception

fun what :: "sick_exception \<Rightarrow> string" where
  "what (SickTimeoutException m) = m"
| "what (SickIOException m) = m"
| "what (SickConfigException m) = m"
| "what (SickException m) = m"
| "what Other_exception = []"

fun is_SickTimeoutException :: "sick_exception \<Rightarrow> bool" where
  "is_SickTimeoutException (SickTimeoutException m) = True"
| "is_SickTimeoutException e = False"

fun is_SickIOException :: "sick_exception \<Rightarrow> bool" where
  "is_SickIOException (SickIOException m) = True"
| "is_SickIOException e = False"

fun is_SickConfigException :: "sick_exception \<Rightarrow> bool" where
  "is_SickConfigException (SickConfigException m) = True"
| "is_SickConfigException e = False"

fun is_SickException :: "sick_exception \<Rightarrow> bool" where
  "is_SickException Other_exception = False"
| "is_SickException e = True"

text \<open>
  The methods of \<^verbatim>\<open>SickLMS\<close> the consumers call. A method that talks to the device
  returns the exception it throws, if any, and the object as the call left it. The
  queries \<open>IsInitialized\<close>, \<open>IsSickLMSFast\<close>, \<open>GetSickDevicePath\<close> and the two text
  queries are called outside every \<^verbatim>\<open>try\<close> block and are taken not to throw; the other
  queries are only called inside one and may throw. The two overloads of
  \<^verbatim>\<open>GetSickScan\<close> fill caller buffers and counters: the model returns the filled part of
  each buffer as a list, whose length is the counter.
\<close>

record 's driver =
  new_SickLMS :: "string \<Rightarrow> 's"
  GetSickDevicePath :: "'s \<Rightarrow> string"
  IsInitialized :: "'s \<Rightarrow> bool"
  IsSickLMSFast :: "'s \<Rightarrow> bool"
  Initialize :: "'s \<Rightarrow> sick_lms_baud_t \<Rightarrow> sick_exception option \<times> 's"
  Uninitialize :: "'s \<Rightarrow> sick_exception option \<times> 's"
  SetSickVariant :: "'s \<Rightarrow> sick_lms_scan_angle_t \<Rightarrow> sick_lms_scan_resolution_t
                       \<Rightarrow> sick_exception option \<times> 's"
  GetSickScan :: "'s \<Rightarrow> (sick_exception + nat list) \<times> 's"
  GetSickScan_reflect :: "'s \<Rightarrow> (sick_exception + nat list \<times> nat list) \<times> 's"
  GetSickMeasuringUnits :: "'s \<Rightarrow> sick_exception + sick_lms_measuring_units_t"
  GetSickMeasuringMode :: "'s \<Rightarrow> sick_exception + sick_lms_measuring_mode_t"
  GetSickScanResolution :: "'s \<Rightarrow> sick_exception + real"
  GetSickScanAngle :: "'s \<Rightarrow> sick_exception + real"
  GetSickStatusAsString :: "'s \<Rightarrow> string"
  GetSickSoftwareVersionAsString :: "'s \<Rightarrow> string"

subsection \<open>The static conversion utilities\<close>

text \<open>
  Modelled from the spec: the static conversion functions of \<^verbatim>\<open>SickLMS\<close>
  (\<^verbatim>\<open>IntToSickBaud\<close>, \<^verbatim>\<open>StringToSickBaud\<close>, \<^verbatim>\<open>SickBaudToString\<close>,
  \<^verbatim>\<open>IntToSickScanAngle\<close>, \<^verbatim>\<open>DoubleToSickScanResolution\<close>) are not in the source
  files. The spec gives the baud rates {9600, 19200, 38400, 500000}, the scan angles
  {100, 180} and the resolutions {0.25, 0.50, 1.00}, and says that a conversion is pure and
  returns the "unknown" sentinel on any other input.
\<close>

definition IntToSickBaud :: "int \<Rightarrow> sick_lms_baud_t" where
  "IntToSickBaud baud_int =
     (if baud_int = 9600 then SICK_BAUD_9600
      else if baud_int = 19200 then SICK_BAUD_19200
      else if baud_int = 38400 then SICK_BAUD_38400
      else if baud_int = 500000 then SICK_BAUD_500K
      else SICK_BAUD_UNKNOWN)"

definition StringToSickBaud :: "string \<Rightarrow> sick_lms_baud_t" where
  "StringToSickBaud baud_str =
     (if baud_str = ''9600'' then SICK_BAUD_9600
      else if baud_str = ''19200'' then SICK_BAUD_19200
      else if baud_str = ''38400'' then SICK_BAUD_38400
      else if baud_str = ''500000'' then SICK_BAUD_500K
      else SICK_BAUD_UNKNOWN)"

fun SickBaudToString :: "sick_lms_baud_t \<Rightarrow> string" where
  "SickBaudToString SICK_BAUD_9600 = ''9600bps''"
| "SickBaudToString SICK_BAUD_19200 = ''19200bps''"
| "SickBaudToString SICK_BAUD_38400 = ''38400bps''"
| "SickBaudToString SICK_BAUD_500K = ''500Kbps''"
| "SickBaudToString SICK_BAUD_UNKNOWN = ''Unknown''"

definition IntToSickScanAngle :: "int \<Rightarrow> sick_lms_scan_angle_t" where
  "IntToSickScanAngle scan_angle_int =
     (if scan_angle_int = 100 then SICK_SCAN_ANGLE_100
      else if scan_angle_int = 180 then SICK_SCAN_ANGLE_180
      else SICK_SCAN_ANGLE_UNKNOWN)"

definition DoubleToSickScanResolution :: "real \<Rightarrow> sick_lms_scan_resolution_t" where
  "DoubleToSickScanResolution scan_resolution_double =
     (if scan_resolution_double = 1/4 then SICK_SCAN_RESOLUTION_25
      else if scan_resolution_double = 1/2 then SICK_SCAN_RESOLUTION_50
      else if scan_resolution_double = 1 then SICK_SCAN_RESOLUTION_100
      else SICK_SCAN_RESOLUTION_UNKNOWN)"

section \<open>The MATLAB bridge: \<^verbatim>\<open>lmsmex.cc\<close>\<close>

subsection \<open>Host values and host calls\<close>

text \<open>
  An input argument of the MEX function is a character array or a double scalar.
  \<^verbatim>\<open>mxGetString\<close> copies a character array into a buffer of \<open>buflen\<close> bytes and fails on
  anything else and on a string that does not fit with its terminator.
  \<^verbatim>\<open>*((double *)mxGetPr(a))\<close> reads the double of a scalar; on a character array it
  reinterprets foreign storage, which the model reports as \<open>None\<close>. A C++ \<^verbatim>\<open>double\<close> is
  modelled as a real number. The cast \<^verbatim>\<open>(int)\<close> truncates toward zero.
\<close>

datatype mxArray = MxString string | MxDouble real

definition ARG_BUFF_LENGTH :: nat where "ARG_BUFF_LENGTH = 256"
definition NUM_INIT_STRUCT_KEYS :: nat where "NUM_INIT_STRUCT_KEYS = 4"
definition NUM_GRAB_STRUCT_KEYS :: nat where "NUM_GRAB_STRUCT_KEYS = 5"
definition MAX_NUM_LMS_DEVICES :: nat where "MAX_NUM_LMS_DEVICES = 4"

fun mxGetString :: "mxArray \<Rightarrow> nat \<Rightarrow> string option" where
  "mxGetString (MxString s) buflen = (if length s < buflen then Some s else None)"
| "mxGetString (MxDouble d) buflen = None"

fun mxGetPr_double :: "mxArray \<Rightarrow> real option" where
  "mxGetPr_double (MxDouble d) = Some d"
| "mxGetPr_double (MxString s) = None"

definition int_of_double :: "real \<Rightarrow> int" where
  "int_of_double d = (if 0 \<le> d then \<lfloor>d\<rfloor> else \<lceil>d\<rceil>)"

text \<open>
  What the bridge prints, warns about and reports as an error. Each constructor stands for
  one message text of the source, given by \<open>mex_error_text\<close> for the errors.
\<close>

datatype mex_print =
  Print_initializing string
  | Print_initialized string
  | Print_attempting_variant int real
  | Print_variant_set
  | Print_text string

datatype mex_warning =
  Warn_is_initialized string
  | Warn_exception_while_erasing

datatype mex_message =
  Msg_usage
  | Msg_could_not_read_command
  | Msg_unrecognized_command
  | Msg_init_input_args
  | Msg_clear_input_args
  | Msg_variant_input_args
  | Msg_grab_input_args
  | Msg_info_input_args
  | Msg_output_args
  | Msg_info_output_args
  | Msg_could_not_read_argument
  | Msg_max_devices
  | Msg_invalid_baud
  | Msg_io_error
  | Msg_error_occurred
  | Msg_no_device_yet
  | Msg_multiple_devices
  | Msg_no_device_for_path
  | Msg_not_initialized
  | Msg_variant_lms_fast
  | Msg_invalid_scan_angle
  | Msg_invalid_scan_resolution
  | Msg_config_error

fun mex_error_text :: "mex_message \<Rightarrow> string" where
  "mex_error_text Msg_usage =
     ''Usage: sicklms(cmd,[args]). Type \"help sicklms\" for help and example usage.''"
| "mex_error_text Msg_could_not_read_command = ''sicklms: Could not read command.''"
| "mex_error_text Msg_unrecognized_command = ''sicklms: Unrecognized command!''"
| "mex_error_text Msg_init_input_args =
     ''sicklms: Invalid number of input args for init!\<newline>Type \"help sicklms\" for help.''"
| "mex_error_text Msg_clear_input_args =
     ''sicklms: Invalid number of input args for clear!\<newline>Type \"help sicklms\" for help.''"
| "mex_error_text Msg_variant_input_args =
     ''sicklms: Invalid number of input args for variant!\<newline>Type \"help sicklms\" for help.''"
| "mex_error_text Msg_grab_input_args =
     ''sicklms: Invalid number of input args for grab!\<newline>Type \"help sicklms\" for help.''"
| "mex_error_text Msg_info_input_args =
     ''sicklms: Invalid number of input args!\<newline>Type \"help sicklms\" for help.''"
| "mex_error_text Msg_output_args =
     ''Invalid number of output args.\<newline>Type \"help sicklms\" for help.''"
| "mex_error_text Msg_info_output_args =
     ''sicklms: Invalid number of output args!\<newline>Type \"help sicklms\" for help.''"
| "mex_error_text Msg_could_not_read_argument = ''sicklms: Could not read argument!''"
| "mex_error_text Msg_max_devices = ''sicklms: Max number of devices already running!''"
| "mex_error_text Msg_invalid_baud =
     ''sicklms: Invalid baud rate! Valid values are 9600, 19200, 38400, and 500000.''"
| "mex_error_text Msg_io_error =
     ''sicklms: An I/O error occurred! Are you using the correct device path?''"
| "mex_error_text Msg_error_occurred = ''sicklms: An error occurred!''"
| "mex_error_text Msg_no_device_yet = ''sicklms: A device hasn't been initialized yet!''"
| "mex_error_text Msg_multiple_devices =
     ''sicklms: Multiple devices are operating! Please specify a device path!''"
| "mex_error_text Msg_no_device_for_path = ''sicklms: No device associated with given path!''"
| "mex_error_text Msg_not_initialized = ''sicklms: Device is not initialized!''"
| "mex_error_text Msg_variant_lms_fast =
     ''sicklms: Variant command is not supported by this Sick model (LMS Fast)! (Ignoring request)''"
| "mex_error_text Msg_invalid_scan_angle =
     ''sicklms: Invalid scan angle (FOV)! Valid values are 100 and 180.''"
| "mex_error_text Msg_invalid_scan_resolution =
     ''sicklms: Invalid scan resolution! Valid values are 0.25, 0.50, and 1.0.''"
| "mex_error_text Msg_config_error =
     ''sicklms: A config error occurred! Variant may not be supported by this model!''"

text \<open>
  How a command ends other than by returning. \<^verbatim>\<open>mexErrMsgTxt\<close> leaves the MEX function at
  once and hands the message to MATLAB; the global map keeps what was done to it before.
  The other two are undefined behaviour of the C++ code, where the host process is lost:
  calling a method through a null pointer, and reading an element of \<^verbatim>\<open>prhs\<close> that is
  not there or is not a double.
\<close>

datatype mex_error =
  MexErrMsgTxt mex_message
  | Null_dereference
  | Bad_argument_read

subsection \<open>The global map and the record of driver calls\<close>

text \<open>
  \<^verbatim>\<open>std::map<std::string,SickLMS*>\<close>: the entries in ascending key order, a pointer
  being \<open>None\<close> (null) or \<open>Some\<close> object. \<^verbatim>\<open>begin()\<close> is the head of the list,
  \<^verbatim>\<open>size()\<close> its length. \<^verbatim>\<open>operator[]\<close> on a missing key inserts the key with a null
  pointer and returns that.
\<close>

type_synonym 's lms_map = "(string \<times> 's option) list"

fun map_insert :: "string \<Rightarrow> 's option \<Rightarrow> 's lms_map \<Rightarrow> 's lms_map" where
  "map_insert k v [] = [(k, v)]"
| "map_insert k v ((k', v') # m) =
     (if k < k' then (k, v) # (k', v') # m
      else if k = k' then (k, v) # m
      else (k', v') # map_insert k v m)"

definition map_find :: "'s lms_map \<Rightarrow> string \<Rightarrow> 's option option" where
  "map_find m k = map_of m k"

definition map_index :: "'s lms_map \<Rightarrow> string \<Rightarrow> 's option \<times> 's lms_map" where
  "map_index m k =
     (case map_find m k of
        Some ptr \<Rightarrow> (ptr, m)
      | None \<Rightarrow> (None, map_insert k None m))"

definition map_erase :: "string \<Rightarrow> 's lms_map \<Rightarrow> 's lms_map" where
  "map_erase k m = filter (\<lambda>e. fst e \<noteq> k) m"

text \<open>
  The calls the bridge makes on driver objects and on the host, in the order made. The
  string of a driver event is the map key through which the object was reached.
  \<open>set_object\<close> writes an object under a key: the assignment
  \<^verbatim>\<open>sick_lms_map[k] = new SickLMS(k)\<close>, and the change a method call makes to the
  object the pointer under \<open>k\<close> points to.
\<close>

datatype event =
  Ev_new string
  | Ev_delete string
  | Ev_Initialize string sick_lms_baud_t
  | Ev_Uninitialize string
  | Ev_SetSickVariant string sick_lms_scan_angle_t sick_lms_scan_resolution_t
  | Ev_GetSickScan string
  | Ev_mexWarnMsgTxt mex_warning
  | Ev_mexPrintf mex_print
  | Ev_mexAtExit

record 's mex_state =
  sick_lms_map :: "'s lms_map"
  trace :: "event list"

definition emit :: "event list \<Rightarrow> 's mex_state \<Rightarrow> 's mex_state" where
  "emit evs st = st\<lparr>trace := trace st @ evs\<rparr>"

definition set_object :: "string \<Rightarrow> 's \<Rightarrow> 's mex_state \<Rightarrow> 's mex_state" where
  "set_object k obj st = st\<lparr>sick_lms_map := map_insert k (Some obj) (sick_lms_map st)\<rparr>"

definition mexErrMsgTxt :: "mex_message \<Rightarrow> 's mex_state \<Rightarrow> (mex_error + 'a) \<times> 's mex_state" where
  "mexErrMsgTxt msg st = (Inl (MexErrMsgTxt msg), st)"

subsection \<open>\<^verbatim>\<open>sickInMap\<close> and \<^verbatim>\<open>cleanup\<close>\<close>

definition sickInMap :: "string \<Rightarrow> 's mex_state \<Rightarrow> bool" where
  "sickInMap sick_dev_path st = (map_find (sick_lms_map st) sick_dev_path \<noteq> None)"

text \<open>
  \<^verbatim>\<open>cleanup\<close> tests \<^verbatim>\<open>sick_lms_map[sick_dev_path] != NULL\<close> with \<^verbatim>\<open>operator[]\<close>, so a
  path that is not in the map is left in it with a null pointer. Under a non-null pointer
  it calls \<^verbatim>\<open>Uninitialize\<close> if the object says it is initialized, warns when that throws,
  deletes the object and erases the entry.
\<close>

definition cleanup :: "'s driver \<Rightarrow> string \<Rightarrow> 's mex_state \<Rightarrow> 's mex_state" where
  "cleanup drv sick_dev_path st =
     (case map_index (sick_lms_map st) sick_dev_path of
        (None, m) \<Rightarrow> st\<lparr>sick_lms_map := m\<rparr>
      | (Some obj, m) \<Rightarrow>
          (let st1 =
                (if IsInitialized drv obj then
                   (case Uninitialize drv obj of
                      (None, obj') \<Rightarrow> emit [Ev_Uninitialize sick_dev_path] st
                    | (Some e, obj') \<Rightarrow>
                        emit [Ev_Uninitialize sick_dev_path,
                              Ev_mexWarnMsgTxt Warn_exception_while_erasing] st)
                 else st);
               st2 = emit [Ev_delete sick_dev_path] st1
           in st2\<lparr>sick_lms_map := map_erase sick_dev_path (sick_lms_map st2)\<rparr>))"

text \<open>
  The block the commands \<^verbatim>\<open>clear\<close>, \<^verbatim>\<open>variant\<close>, \<^verbatim>\<open>grab\<close> and \<^verbatim>\<open>info\<close> each repeat
  after their argument-count checks, with \<open>n\<close> the number of input arguments that leaves the
  device path out (1, 3, 1, 1) and \<open>prhs ! n\<close> the path when it is given: the test that a
  device exists, the default path when there is one device, the lookup of a given path. With
  any other number of arguments the path stays the empty string. It ends with
  \<^verbatim>\<open>sick_lms_map[sick_dev_path]->IsInitialized()\<close>, which goes through \<^verbatim>\<open>operator[]\<close>
  and a pointer that may be null. The result is the path and the object under it.
\<close>

definition resolve_device ::
  "'s driver \<Rightarrow> nat \<Rightarrow> mxArray list \<Rightarrow> 's mex_state \<Rightarrow> (mex_error + string \<times> 's) \<times> 's mex_state" where
  "resolve_device drv n prhs st =
     (if length (sick_lms_map st) = 0 then mexErrMsgTxt Msg_no_device_yet st
      else
        (case
           (if length prhs = n then
              (if length (sick_lms_map st) = 1 then
                 (case snd (hd (sick_lms_map st)) of
                    None \<Rightarrow> Inl Null_dereference
                  | Some obj \<Rightarrow> Inr (GetSickDevicePath drv obj))
               else Inl (MexErrMsgTxt Msg_multiple_devices))
            else if length prhs = Suc n then
              (case mxGetString (prhs ! n) ARG_BUFF_LENGTH of
                 None \<Rightarrow> Inl (MexErrMsgTxt Msg_could_not_read_argument)
               | Some arg_buffer \<Rightarrow>
                   (if \<not> sickInMap arg_buffer st then Inl (MexErrMsgTxt Msg_no_device_for_path)
                    else Inr arg_buffer))
            else Inr [])
         of
           Inl err \<Rightarrow> (Inl err, st)
         | Inr sick_dev_path \<Rightarrow>
             (case map_index (sick_lms_map st) sick_dev_path of
                (None, m) \<Rightarrow> (Inl Null_dereference, st\<lparr>sick_lms_map := m\<rparr>)
              | (Some obj, m) \<Rightarrow>
                  (if \<not> IsInitialized drv obj then mexErrMsgTxt Msg_not_initialized st
                   else (Inr (sick_dev_path, obj), st)))))"

subsection \<open>\<^verbatim>\<open>setSickVariant\<close>\<close>

definition arg_double :: "mxArray list \<Rightarrow> nat \<Rightarrow> real option" where
  "arg_double prhs i = (if i < length prhs then mxGetPr_double (prhs ! i) else None)"

definition setSickVariant ::
  "'s driver \<Rightarrow> nat \<Rightarrow> mxArray list \<Rightarrow> 's mex_state \<Rightarrow> (mex_error + unit) \<times> 's mex_state" where
  "setSickVariant drv nlhs prhs st =
     (if length prhs > 4 then mexErrMsgTxt Msg_variant_input_args st
      else if nlhs > 0 then mexErrMsgTxt Msg_output_args st
      else
        (case resolve_device drv 3 prhs st of
           (Inl err, st1) \<Rightarrow> (Inl err, st1)
         | (Inr (sick_dev_path, obj), st1) \<Rightarrow>
             (if IsSickLMSFast drv obj then mexErrMsgTxt Msg_variant_lms_fast st1
              else
                (case arg_double prhs 1 of
                   None \<Rightarrow> (Inl Bad_argument_read, st1)
                 | Some d1 \<Rightarrow>
                     (let scan_angle = int_of_double d1;
                          sick_scan_angle = IntToSickScanAngle scan_angle
                      in if sick_scan_angle = SICK_SCAN_ANGLE_UNKNOWN
                         then mexErrMsgTxt Msg_invalid_scan_angle st1
                         else
                           (case arg_double prhs 2 of
                              None \<Rightarrow> (Inl Bad_argument_read, st1)
                            | Some scan_resolution \<Rightarrow>
                                (let sick_scan_resolution =
                                       DoubleToSickScanResolution scan_resolution
                                 in if sick_scan_resolution = SICK_SCAN_RESOLUTION_UNKNOWN
                                    then mexErrMsgTxt Msg_invalid_scan_resolution st1
                                    else
                                      (let st2 = emit [Ev_mexPrintf
                                                   (Print_attempting_variant scan_angle
                                                      scan_resolution),
                                                 Ev_SetSickVariant sick_dev_path
                                                   sick_scan_angle sick_scan_resolution] st1
                                       in case SetSickVariant drv obj sick_scan_angle
                                                 sick_scan_resolution of
                                            (None, obj') \<Rightarrow>
                                              (Inr (),
                                               emit [Ev_mexPrintf Print_variant_set]
                                                 (set_object sick_dev_path obj' st2))
                                          | (Some e, obj') \<Rightarrow>
                                              (let st3 = set_object sick_dev_path obj' st2
                                               in if is_SickConfigException e
                                                  then mexErrMsgTxt Msg_config_error st3
                                                  else mexErrMsgTxt Msg_error_occurred
                                                         (cleanup drv sick_dev_path st3))))))))))"

subsection \<open>\<^verbatim>\<open>initSick\<close>\<close>

text \<open>
  The struct \<^verbatim>\<open>init\<close> returns. The host allocators (\<^verbatim>\<open>mxCreateStructArray\<close> and the
  like) and \<^verbatim>\<open>mexAtExit\<close> are taken to succeed, and the constructor of \<^verbatim>\<open>SickLMS\<close>
  not to throw.
\<close>

record init_struct =
  init_path :: string
  init_lms_fast :: bool
  init_units_mm :: bool
  init_meas_mode :: sick_lms_measuring_mode_t

text \<open>The two handlers of \<^verbatim>\<open>initSick\<close>: both clean the path up, then report.\<close>

definition initSick_catch ::
  "'s driver \<Rightarrow> string \<Rightarrow> sick_exception \<Rightarrow> 's mex_state \<Rightarrow> (mex_error + 'a) \<times> 's mex_state" where
  "initSick_catch drv sick_dev_path e st =
     (if is_SickIOException e then mexErrMsgTxt Msg_io_error (cleanup drv sick_dev_path st)
      else mexErrMsgTxt Msg_error_occurred (cleanup drv sick_dev_path st))"

text \<open>
  The second half of \<^verbatim>\<open>initSick\<close>, from the baud rate on: the conversion of the third
  argument, then the \<^verbatim>\<open>try\<close> block that constructs the object, stores it in the map and
  initializes it, and the struct that is returned.
\<close>

definition initSick_open ::
  "'s driver \<Rightarrow> string \<Rightarrow> mxArray \<Rightarrow> 's mex_state \<Rightarrow> (mex_error + init_struct) \<times> 's mex_state" where
  "initSick_open drv sick_dev_path baud_arg st1 =
     (case mxGetPr_double baud_arg of
        None \<Rightarrow> (Inl Bad_argument_read, st1)
      | Some d \<Rightarrow>
          (let sick_baud = IntToSickBaud (int_of_double d)
           in if sick_baud = SICK_BAUD_UNKNOWN
              then mexErrMsgTxt Msg_invalid_baud st1
              else
                (let st2 = emit [Ev_mexPrintf (Print_initializing sick_dev_path),
                                 Ev_Initialize sick_dev_path sick_baud]
                             (emit [Ev_new sick_dev_path]
                                (set_object sick_dev_path
                                   (new_SickLMS drv sick_dev_path) st1))
                 in case Initialize drv (new_SickLMS drv sick_dev_path) sick_baud of
                      (Some e, obj) \<Rightarrow>
                        initSick_catch drv sick_dev_path e (set_object sick_dev_path obj st2)
                    | (None, obj) \<Rightarrow>
                        (let st3 = emit [Ev_mexPrintf
                                           (Print_initialized (SickBaudToString sick_baud))]
                                     (set_object sick_dev_path obj st2);
                             lms_fast = IsSickLMSFast drv obj
                         in case GetSickMeasuringUnits drv obj of
                              Inl e \<Rightarrow> initSick_catch drv sick_dev_path e st3
                            | Inr units \<Rightarrow>
                                (case GetSickMeasuringMode drv obj of
                                   Inl e \<Rightarrow> initSick_catch drv sick_dev_path e st3
                                 | Inr meas_mode \<Rightarrow>
                                     (Inr \<lparr>init_path = sick_dev_path,
                                            init_lms_fast = lms_fast,
                                            init_units_mm = (units = SICK_MEASURING_UNITS_MM),
                                            init_meas_mode = meas_mode\<rparr>,
                                      emit [Ev_mexAtExit] st3))))))"

text \<open>
  \<^verbatim>\<open>initSick\<close>: the argument checks, the test of the number of devices, the cleanup of
  a previous instance under the same path, then the second half.
\<close>

definition initSick ::
  "'s driver \<Rightarrow> nat \<Rightarrow> mxArray list \<Rightarrow> 's mex_state \<Rightarrow> (mex_error + init_struct) \<times> 's mex_state" where
  "initSick drv nlhs prhs st =
     (if length prhs \<noteq> 3 then mexErrMsgTxt Msg_init_input_args st
      else if nlhs > 1 then mexErrMsgTxt Msg_output_args st
      else
        (case mxGetString (prhs ! 1) ARG_BUFF_LENGTH of
           None \<Rightarrow> mexErrMsgTxt Msg_could_not_read_argument st
         | Some sick_dev_path \<Rightarrow>
             (if length (sick_lms_map st) = MAX_NUM_LMS_DEVICES
              then mexErrMsgTxt Msg_max_devices st
              else if sickInMap sick_dev_path st then
                (case fst (map_index (sick_lms_map st) sick_dev_path) of
                   None \<Rightarrow> (Inl Null_dereference, st)
                 | Some obj \<Rightarrow>
                     initSick_open drv sick_dev_path (prhs ! 2)
                       (cleanup drv sick_dev_path
                          (if IsInitialized drv obj
                           then emit [Ev_mexWarnMsgTxt (Warn_is_initialized sick_dev_path)] st
                           else st)))
              else initSick_open drv sick_dev_path (prhs ! 2) st)))"

subsection \<open>\<^verbatim>\<open>clearSick\<close> and \<^verbatim>\<open>printSickInfo\<close>\<close>

definition clearSick ::
  "'s driver \<Rightarrow> nat \<Rightarrow> mxArray list \<Rightarrow> 's mex_state \<Rightarrow> (mex_error + unit) \<times> 's mex_state" where
  "clearSick drv nlhs prhs st =
     (if length prhs > 2 then mexErrMsgTxt Msg_clear_input_args st
      else if nlhs > 0 then mexErrMsgTxt Msg_output_args st
      else
        (case resolve_device drv 1 prhs st of
           (Inl err, st1) \<Rightarrow> (Inl err, st1)
         | (Inr (sick_dev_path, obj), st1) \<Rightarrow> (Inr (), cleanup drv sick_dev_path st1)))"

definition printSickInfo ::
  "'s driver \<Rightarrow> nat \<Rightarrow> mxArray list \<Rightarrow> 's mex_state \<Rightarrow> (mex_error + unit) \<times> 's mex_state" where
  "printSickInfo drv nlhs prhs st =
     (if length prhs > 2 then mexErrMsgTxt Msg_info_input_args st
      else if nlhs > 0 then mexErrMsgTxt Msg_info_output_args st
      else
        (case resolve_device drv 1 prhs st of
           (Inl err, st1) \<Rightarrow> (Inl err, st1)
         | (Inr (sick_dev_path, obj), st1) \<Rightarrow>
             (Inr (),
              emit [Ev_mexPrintf (Print_text (GetSickStatusAsString drv obj)),
                    Ev_mexPrintf (Print_text (GetSickSoftwareVersionAsString drv obj))] st1)))"

subsection \<open>\<^verbatim>\<open>grabSickVals\<close>\<close>

text \<open>
  The struct \<^verbatim>\<open>grab\<close> returns; a field that is never set is \<open>None\<close>. The values are
  \<^verbatim>\<open>unsigned int\<close> in the driver's buffers and are copied into arrays of doubles.
\<close>

record grab_struct =
  grab_res :: real
  grab_fov :: real
  grab_range :: "real list option"
  grab_reflect :: "real list option"
  grab_bearing :: "real list"

text \<open>
  One of the two output-argument checks at the entry of \<^verbatim>\<open>grabSickVals\<close>:
  \<^verbatim>\<open>if(nlhs > k && sick_lms_map[sick_dev_path]->IsSickLMSFast())\<close>. The right operand is
  evaluated only when the left one holds, and goes through \<^verbatim>\<open>operator[]\<close> and the pointer
  it returns.
\<close>

definition output_args_check ::
  "'s driver \<Rightarrow> bool \<Rightarrow> string \<Rightarrow> 's mex_state \<Rightarrow> (mex_error + unit) \<times> 's mex_state" where
  "output_args_check drv too_many sick_dev_path st =
     (if \<not> too_many then (Inr (), st)
      else
        (case map_index (sick_lms_map st) sick_dev_path of
           (None, m) \<Rightarrow> (Inl Null_dereference, st\<lparr>sick_lms_map := m\<rparr>)
         | (Some obj, m) \<Rightarrow>
             (if IsSickLMSFast drv obj then mexErrMsgTxt Msg_output_args st
              else (Inr (), st))))"

definition grabSickVals_catch ::
  "'s driver \<Rightarrow> string \<Rightarrow> 's mex_state \<Rightarrow> (mex_error + 'a) \<times> 's mex_state" where
  "grabSickVals_catch drv sick_dev_path st =
     mexErrMsgTxt Msg_error_occurred (cleanup drv sick_dev_path st)"

text \<open>
  The part of \<^verbatim>\<open>grabSickVals\<close> after the \<^verbatim>\<open>try\<close> block: it builds the struct from the
  values, counters and settings the block left, and asks the object once more whether it is
  an LMS Fast.
\<close>

definition grab_result ::
  "bool \<Rightarrow> nat list \<Rightarrow> nat list \<Rightarrow> sick_lms_measuring_mode_t \<Rightarrow> real \<Rightarrow> real \<Rightarrow> grab_struct" where
  "grab_result lms_fast pri_values sec_values measuring_mode scan_res scan_fov =
     (let num_pri_values = length pri_values;
          mx_pri_array = map real pri_values;
          mx_sec_array = map real sec_values;
          mx_ang_array = map (\<lambda>i. (180 - scan_fov) / 2 + real i * scan_res) [0..<num_pri_values]
      in \<lparr>grab_res = scan_res,
          grab_fov = scan_fov,
          grab_range =
            (if lms_fast then Some mx_pri_array
             else if measuring_mode = SICK_MS_MODE_REFLECTIVITY then None
             else Some mx_pri_array),
          grab_reflect =
            (if lms_fast then Some mx_sec_array
             else if measuring_mode = SICK_MS_MODE_REFLECTIVITY then Some mx_pri_array
             else None),
          grab_bearing = mx_ang_array\<rparr>)"

definition grabSickVals ::
  "'s driver \<Rightarrow> nat \<Rightarrow> mxArray list \<Rightarrow> 's mex_state \<Rightarrow> (mex_error + grab_struct) \<times> 's mex_state" where
  "grabSickVals drv nlhs prhs st =
     (if length prhs > 2 then mexErrMsgTxt Msg_grab_input_args st
      else
        (case output_args_check drv (nlhs > 2) [] st of
           (Inl err, st0) \<Rightarrow> (Inl err, st0)
         | (Inr u, st0) \<Rightarrow>
        (case output_args_check drv (nlhs > 1) [] st0 of
           (Inl err, st0') \<Rightarrow> (Inl err, st0')
         | (Inr u', st0') \<Rightarrow>
        (case resolve_device drv 1 prhs st0' of
           (Inl err, st1) \<Rightarrow> (Inl err, st1)
         | (Inr (sick_dev_path, obj), st1) \<Rightarrow>
             (let st2 = emit [Ev_GetSickScan sick_dev_path] st1;
                  scan = (if IsSickLMSFast drv obj
                          then GetSickScan_reflect drv obj
                          else (case GetSickScan drv obj of
                                  (Inl e, obj') \<Rightarrow> (Inl e, obj')
                                | (Inr pri_values, obj') \<Rightarrow> (Inr (pri_values, []), obj')))
              in case scan of
                   (Inl e, obj') \<Rightarrow>
                     grabSickVals_catch drv sick_dev_path (set_object sick_dev_path obj' st2)
                 | (Inr (pri_values, sec_values), obj') \<Rightarrow>
                     (let st3 = set_object sick_dev_path obj' st2
                      in case GetSickMeasuringMode drv obj' of
                           Inl e \<Rightarrow> grabSickVals_catch drv sick_dev_path st3
                         | Inr measuring_mode \<Rightarrow>
                             (case GetSickScanResolution drv obj' of
                                Inl e \<Rightarrow> grabSickVals_catch drv sick_dev_path st3
                              | Inr scan_res \<Rightarrow>
                                  (case GetSickScanAngle drv obj' of
                                     Inl e \<Rightarrow> grabSickVals_catch drv sick_dev_path st3
                                   | Inr scan_fov \<Rightarrow>
                                       (Inr (grab_result (IsSickLMSFast drv obj') pri_values
                                               sec_values measuring_mode scan_res scan_fov),
                                        st3)))))))))"

subsection \<open>\<^verbatim>\<open>mexExit\<close> and \<^verbatim>\<open>mexFunction\<close>\<close>

text \<open>
  The exit hook loops while the map is not empty and cleans up the path of the first
  entry. Nothing in the loop itself bounds the number of rounds (\<^verbatim>\<open>cleanup\<close> leaves an
  entry whose pointer is null where it is), so the model is a partial function: \<open>None\<close>
  is a loop that never ends.
\<close>

partial_function (option) mexExit :: "'s driver \<Rightarrow> 's mex_state \<Rightarrow> 's mex_state option" where
  "mexExit drv st =
     (if sick_lms_map st \<noteq> []
      then mexExit drv (cleanup drv (fst (hd (sick_lms_map st))) st)
      else Some st)"

declare mexExit.simps [code]

text \<open>
  \<^verbatim>\<open>strcasecmp\<close> compares without regard to the case of ASCII letters; a capital letter
  and its small letter differ in the bit of value 32.
\<close>

fun tolower :: "char \<Rightarrow> char" where
  "tolower (Char b0 b1 b2 b3 b4 b5 b6 b7) =
     (if CHR ''A'' \<le> Char b0 b1 b2 b3 b4 b5 b6 b7 \<and> Char b0 b1 b2 b3 b4 b5 b6 b7 \<le> CHR ''Z''
      then Char b0 b1 b2 b3 b4 True b6 b7
      else Char b0 b1 b2 b3 b4 b5 b6 b7)"

definition strcasecmp_eq :: "string \<Rightarrow> string \<Rightarrow> bool" where
  "strcasecmp_eq s1 s2 = (map tolower s1 = map tolower s2)"

datatype mex_output = Out_none | Out_init init_struct | Out_grab grab_struct

definition returning ::
  "('a \<Rightarrow> mex_output) \<Rightarrow> (mex_error + 'a) \<times> 's mex_state \<Rightarrow> (mex_error + mex_output) \<times> 's mex_state" where
  "returning f r = (case r of (Inl err, st) \<Rightarrow> (Inl err, st) | (Inr x, st) \<Rightarrow> (Inr (f x), st))"

definition mexFunction ::
  "'s driver \<Rightarrow> nat \<Rightarrow> mxArray list \<Rightarrow> 's mex_state \<Rightarrow> (mex_error + mex_output) \<times> 's mex_state" where
  "mexFunction drv nlhs prhs st =
     (if length prhs = 0 then mexErrMsgTxt Msg_usage st
      else
        (case mxGetString (prhs ! 0) ARG_BUFF_LENGTH of
           None \<Rightarrow> mexErrMsgTxt Msg_could_not_read_command st
         | Some cmd_buffer \<Rightarrow>
             (if strcasecmp_eq cmd_buffer ''init''
              then returning Out_init (initSick drv nlhs prhs st)
              else if strcasecmp_eq cmd_buffer ''clear''
              then returning (\<lambda>u. Out_none) (clearSick drv nlhs prhs st)
              else if strcasecmp_eq cmd_buffer ''variant''
              then returning (\<lambda>u. Out_none) (setSickVariant drv nlhs prhs st)
              else if strcasecmp_eq cmd_buffer ''grab''
              then returning Out_grab (grabSickVals drv nlhs prhs st)
              else if strcasecmp_eq cmd_buffer ''info''
              then returning (\<lambda>u. Out_none) (printSickInfo drv nlhs prhs st)
              else mexErrMsgTxt Msg_unrecognized_command st)))"


section \<open>The example programs\<close>

text \<open>
  What an example program writes and which driver calls it makes, in order. A driver call
  is recorded with the device path the object was constructed with.
\<close>

datatype app_event =
  Cout_usage
  | Cerr_invalid_baud
  | Cout_setting_variant sick_lms_scan_angle_t sick_lms_scan_resolution_t
  | Cout_acquiring
  | Cout_num_values nat
  | Cerr_what string
  | Cerr_error_occurred
  | Cout_done
  | Call event

text \<open>
  The acquisition loop, which the programs contain three times:
  \<^verbatim>\<open>for(unsigned int i = 0; i < 10; i++)\<close> around one \<^verbatim>\<open>GetSickScan\<close> in a
  \<^verbatim>\<open>try\<close> block. The first handler takes a \<^verbatim>\<open>SickTimeoutException\<close>, writes its
  text and lets the loop go on. The second handler rethrows; \<open>on_rethrow\<close> is what it
  writes before. The result is the exception that leaves the loop, if any, the driver
  object and the output so far.
\<close>

function acquire_loop ::
  "'s driver \<Rightarrow> string \<Rightarrow> (sick_exception \<Rightarrow> app_event list) \<Rightarrow> nat \<Rightarrow> 's \<Rightarrow> app_event list
   \<Rightarrow> sick_exception option \<times> 's \<times> app_event list" where
  "acquire_loop drv device_str on_rethrow i sick_lms out =
     (if i < 10 then
        (case GetSickScan drv sick_lms of
           (Inr values, sick_lms') \<Rightarrow>
             acquire_loop drv device_str on_rethrow (Suc i) sick_lms'
               (out @ [Call (Ev_GetSickScan device_str), Cout_num_values (length values)])
         | (Inl e, sick_lms') \<Rightarrow>
             (if is_SickTimeoutException e then
                acquire_loop drv device_str on_rethrow (Suc i) sick_lms'
                  (out @ [Call (Ev_GetSickScan device_str), Cerr_what (what e)])
              else
                (Some e, sick_lms', out @ [Call (Ev_GetSickScan device_str)] @ on_rethrow e)))
      else (None, sick_lms, out))"
  by pat_completeness auto
termination
  by (relation "measure (\<lambda>(drv, device_str, on_rethrow, i, sick_lms, out). 10 - i)") auto

declare acquire_loop.simps [simp del]

text \<open>
  \<^verbatim>\<open>lms_simple_app\<close> and the second loop of \<^verbatim>\<open>lms_set_variant\<close> rethrow from
  \<^verbatim>\<open>catch(...)\<close> and write nothing. The first loop of \<^verbatim>\<open>lms_set_variant\<close> rethrows from
  \<^verbatim>\<open>catch(SickException &)\<close> after writing the text of the exception; an exception that
  is no \<^verbatim>\<open>SickException\<close> passes through without a handler.
\<close>

definition simple_app_loop ::
  "'s driver \<Rightarrow> string \<Rightarrow> 's \<Rightarrow> app_event list \<Rightarrow> sick_exception option \<times> 's \<times> app_event list" where
  "simple_app_loop drv device_str sick_lms out =
     acquire_loop drv device_str (\<lambda>e. []) 0 sick_lms out"

definition set_variant_loop_100 ::
  "'s driver \<Rightarrow> string \<Rightarrow> 's \<Rightarrow> app_event list \<Rightarrow> sick_exception option \<times> 's \<times> app_event list" where
  "set_variant_loop_100 drv device_str sick_lms out =
     acquire_loop drv device_str
       (\<lambda>e. if is_SickException e then [Cerr_what (what e)] else []) 0 sick_lms out"

definition set_variant_loop_180 ::
  "'s driver \<Rightarrow> string \<Rightarrow> 's \<Rightarrow> app_event list \<Rightarrow> sick_exception option \<times> 's \<times> app_event list" where
  "set_variant_loop_180 drv device_str sick_lms out =
     acquire_loop drv device_str (\<lambda>e. []) 0 sick_lms out"

text \<open>
  The command line, as both programs read it: the usage test, then the device path and
  the baud rate. The result is the exit code to return at once, or the path and the baud.
\<close>

definition parse_args :: "string list \<Rightarrow> (int \<times> app_event list) + (string \<times> sick_lms_baud_t)" where
  "parse_args argv =
     (let argc = length argv
      in if (argc \<noteq> 2 \<and> argc \<noteq> 3) \<or> (argc = 2 \<and> strcasecmp_eq (argv ! 1) ''--help'')
         then Inl (- 1, [Cout_usage])
         else if argc = 3 then
           (let desired_baud = StringToSickBaud (argv ! 2)
            in if desired_baud = SICK_BAUD_UNKNOWN then Inl (- 1, [Cerr_invalid_baud])
               else Inr (argv ! 1, desired_baud))
         else Inr (argv ! 1, SICK_BAUD_38400))"

text \<open>The outer handler of both programs, and the end of the scope of \<^verbatim>\<open>sick_lms\<close>.\<close>

definition bail :: "string \<Rightarrow> app_event list \<Rightarrow> int \<times> app_event list" where
  "bail device_str out = (- 1, out @ [Cerr_error_occurred, Call (Ev_delete device_str)])"

definition lms_simple_app_main :: "'s driver \<Rightarrow> string list \<Rightarrow> int \<times> app_event list" where
  "lms_simple_app_main drv argv =
     (case parse_args argv of
        Inl r \<Rightarrow> r
      | Inr (device_str, desired_baud) \<Rightarrow>
          (let log0 = [Call (Ev_new device_str), Call (Ev_Initialize device_str desired_baud)]
           in case Initialize drv (new_SickLMS drv device_str) desired_baud of
                (Some e, sick_lms1) \<Rightarrow> bail device_str log0
              | (None, sick_lms1) \<Rightarrow>
                  (case simple_app_loop drv device_str sick_lms1 log0 of
                     (Some e, sick_lms2, log1) \<Rightarrow> bail device_str log1
                   | (None, sick_lms2, log1) \<Rightarrow>
                       (case Uninitialize drv sick_lms2 of
                          (Some e, sick_lms3) \<Rightarrow>
                            bail device_str (log1 @ [Call (Ev_Uninitialize device_str)])
                        | (None, sick_lms3) \<Rightarrow>
                            (0, log1 @ [Call (Ev_Uninitialize device_str), Cout_done,
                                        Call (Ev_delete device_str)])))))"

definition lms_set_variant_main :: "'s driver \<Rightarrow> string list \<Rightarrow> int \<times> app_event list" where
  "lms_set_variant_main drv argv =
     (case parse_args argv of
        Inl r \<Rightarrow> r
      | Inr (device_str, desired_baud) \<Rightarrow>
          (let log0 = [Call (Ev_new device_str), Call (Ev_Initialize device_str desired_baud)]
           in case Initialize drv (new_SickLMS drv device_str) desired_baud of
                (Some e, sick_lms1) \<Rightarrow> bail device_str log0
              | (None, sick_lms1) \<Rightarrow>
          (let log1 = log0 @ [Cout_setting_variant SICK_SCAN_ANGLE_100 SICK_SCAN_RESOLUTION_25,
                              Call (Ev_SetSickVariant device_str SICK_SCAN_ANGLE_100
                                      SICK_SCAN_RESOLUTION_25)]
           in case SetSickVariant drv sick_lms1 SICK_SCAN_ANGLE_100 SICK_SCAN_RESOLUTION_25 of
                (Some e, sick_lms2) \<Rightarrow> bail device_str log1
              | (None, sick_lms2) \<Rightarrow>
          (case set_variant_loop_100 drv device_str sick_lms2 (log1 @ [Cout_acquiring]) of
             (Some e, sick_lms3, log2) \<Rightarrow> bail device_str log2
           | (None, sick_lms3, log2) \<Rightarrow>
          (let log3 = log2 @ [Cout_setting_variant SICK_SCAN_ANGLE_180 SICK_SCAN_RESOLUTION_50,
                              Call (Ev_SetSickVariant device_str SICK_SCAN_ANGLE_180
                                      SICK_SCAN_RESOLUTION_50)]
           in case SetSickVariant drv sick_lms3 SICK_SCAN_ANGLE_180 SICK_SCAN_RESOLUTION_50 of
                (Some e, sick_lms4) \<Rightarrow> bail device_str log3
              | (None, sick_lms4) \<Rightarrow>
          (case set_variant_loop_180 drv device_str sick_lms4 (log3 @ [Cout_acquiring]) of
             (Some e, sick_lms5, log4) \<Rightarrow> bail device_str log4
           | (None, sick_lms5, log4) \<Rightarrow>
               (case Uninitialize drv sick_lms5 of
                  (Some e, sick_lms6) \<Rightarrow>
                    bail device_str (log4 @ [Call (Ev_Uninitialize device_str)])
                | (None, sick_lms6) \<Rightarrow>
                    (0, log4 @ [Call (Ev_Uninitialize device_str), Cout_done,
                                Call (Ev_delete device_str)]))))))))"

section \<open>A simulated device\<close>

text \<open>
  A driver over a small object state, to run the consumers on concrete inputs. The device
  behind \<^verbatim>\<open>/dev/ttyS9\<close> does not answer (initialisation fails with an I/O error), the one
  behind \<^verbatim>\<open>/dev/ttyUSB1\<close> is an LMS Fast, the one behind \<^verbatim>\<open>/dev/ttyUSB2\<close> fails
  with an I/O error while uninitialising, and the one behind \<^verbatim>\<open>/dev/ttyUSB3\<close> fails
  with an I/O error at the fifth scan of a session. Every device starts at 180 degrees and
  0.5 degrees, and lets the scans number 3 and 7 of a session time out.
\<close>

record sim_lms =
  sim_path :: string
  sim_initialized :: bool
  sim_angle :: real
  sim_resolution :: real
  sim_scans :: nat

definition sim_values :: "sim_lms \<Rightarrow> nat list" where
  "sim_values s = replicate (Suc (nat \<lfloor>sim_angle s / sim_resolution s\<rfloor>)) 1000"

definition sim_times_out :: "sim_lms \<Rightarrow> bool" where
  "sim_times_out s = (sim_scans s = 2 \<or> sim_scans s = 6)"

definition sim_breaks :: "sim_lms \<Rightarrow> bool" where
  "sim_breaks s = (sim_path s = ''/dev/ttyUSB3'' \<and> sim_scans s = 4)"

definition sim_driver :: "sim_lms driver" where
  "sim_driver =
     \<lparr>new_SickLMS = (\<lambda>p. \<lparr>sim_path = p, sim_initialized = False, sim_angle = 180,
                           sim_resolution = 1/2, sim_scans = 0\<rparr>),
      GetSickDevicePath = sim_path,
      IsInitialized = sim_initialized,
      IsSickLMSFast = (\<lambda>s. sim_path s = ''/dev/ttyUSB1''),
      Initialize = (\<lambda>s b. if sim_path s = ''/dev/ttyS9''
                           then (Some (SickIOException ''open failed''), s)
                           else (None, s\<lparr>sim_initialized := True\<rparr>)),
      Uninitialize = (\<lambda>s. if sim_path s = ''/dev/ttyUSB2''
                           then (Some (SickIOException ''write failed''), s)
                           else (None, s\<lparr>sim_initialized := False\<rparr>)),
      SetSickVariant = (\<lambda>s a r.
         if sim_path s = ''/dev/ttyUSB1''
         then (Some (SickConfigException ''not supported''), s)
         else (None, s\<lparr>sim_angle := (if a = SICK_SCAN_ANGLE_100 then 100 else 180),
                        sim_resolution := (if r = SICK_SCAN_RESOLUTION_25 then 1/4
                                           else if r = SICK_SCAN_RESOLUTION_50 then 1/2
                                           else 1)\<rparr>)),
      GetSickScan = (\<lambda>s.
         if sim_breaks s
         then (Inl (SickIOException ''read failed''), s\<lparr>sim_scans := Suc (sim_scans s)\<rparr>)
         else if sim_times_out s
         then (Inl (SickTimeoutException ''timeout''), s\<lparr>sim_scans := Suc (sim_scans s)\<rparr>)
         else (Inr (sim_values s), s\<lparr>sim_scans := Suc (sim_scans s)\<rparr>)),
      GetSickScan_reflect = (\<lambda>s.
         if sim_times_out s
         then (Inl (SickTimeoutException ''timeout''), s\<lparr>sim_scans := Suc (sim_scans s)\<rparr>)
         else (Inr (sim_values s, map (\<lambda>v. 7) (sim_values s)),
               s\<lparr>sim_scans := Suc (sim_scans s)\<rparr>)),
      GetSickMeasuringUnits = (\<lambda>s. Inr SICK_MEASURING_UNITS_MM),
      GetSickMeasuringMode = (\<lambda>s. Inr SICK_MS_MODE_RANGE),
      GetSickScanResolution = (\<lambda>s. Inr (sim_resolution s)),
      GetSickScanAngle = (\<lambda>s. Inr (sim_angle s)),
      GetSickStatusAsString = (\<lambda>s. ''status''),
      GetSickSoftwareVersionAsString = (\<lambda>s. ''version'')\<rparr>"

definition sim_session :: "string \<Rightarrow> sim_lms" where
  "sim_session p = \<lparr>sim_path = p, sim_initialized = True, sim_angle = 180,
                    sim_resolution = 1/2, sim_scans = 0\<rparr>"

definition mex_start :: "'s mex_state" where
  "mex_start = \<lparr>sick_lms_map = [], trace = []\<rparr>"

text \<open>
  States of the bridge over the simulated driver: after \<^verbatim>\<open>init\<close> of one device, and maps
  with four and with five devices.
\<close>

definition sim_one :: "sim_lms mex_state" where
  "sim_one =
     \<lparr>sick_lms_map = [(''/dev/ttyUSB0'', Some (sim_session ''/dev/ttyUSB0''))],
      trace = [Ev_new ''/dev/ttyUSB0'',
               Ev_mexPrintf (Print_initializing ''/dev/ttyUSB0''),
               Ev_Initialize ''/dev/ttyUSB0'' SICK_BAUD_38400,
               Ev_mexPrintf (Print_initialized ''38400bps''),
               Ev_mexAtExit]\<rparr>"

definition sim_four :: "sim_lms mex_state" where
  "sim_four =
     \<lparr>sick_lms_map = [(''/dev/ttyUSB0'', Some (sim_session ''/dev/ttyUSB0'')),
                      (''/dev/ttyUSB1'', Some (sim_session ''/dev/ttyUSB1'')),
                      (''/dev/ttyUSB2'', Some (sim_session ''/dev/ttyUSB2'')),
                      (''/dev/ttyUSB3'', Some (sim_session ''/dev/ttyUSB3''))],
      trace = []\<rparr>"

definition sim_five :: "sim_lms mex_state" where
  "sim_five =
     sim_four\<lparr>sick_lms_map := sick_lms_map sim_four
                  @ [(''/dev/ttyUSB4'', Some (sim_session ''/dev/ttyUSB4''))]\<rparr>"

definition sim_scan :: "sim_lms" where
  "sim_scan = (sim_session ''/dev/ttyUSB0'')\<lparr>sim_scans := 1\<rparr>"

definition sim_two :: "sim_lms mex_state" where
  "sim_two =
     \<lparr>sick_lms_map = [(''/dev/ttyUSB0'', Some (sim_session ''/dev/ttyUSB0'')),
                      (''/dev/ttyUSB2'', Some (sim_session ''/dev/ttyUSB2''))],
      trace = []\<rparr>"

section \<open>Invariants of the bridge\<close>

text \<open>
  Which driver objects are alive after a sequence of events: \<^verbatim>\<open>new\<close> adds the path of
  the object, \<^verbatim>\<open>delete\<close> removes it. \<open>one_live_per_path\<close> holds when at no point of the
  sequence two live objects have the same path.
\<close>

fun live_step :: "string list \<Rightarrow> event \<Rightarrow> string list" where
  "live_step live (Ev_new p) = p # live"
| "live_step live (Ev_delete p) = remove1 p live"
| "live_step live e = live"

fun one_live_per_path :: "string list \<Rightarrow> event list \<Rightarrow> bool" where
  "one_live_per_path live [] = distinct live"
| "one_live_per_path live (e # es) = (distinct live \<and> one_live_per_path (live_step live e) es)"

text \<open>
  A well-formed map: keys in strictly ascending order (what \<^verbatim>\<open>std::map\<close> maintains) and
  no null pointer. \<open>paths_agree\<close>: every object reports the path it is stored under.
  \<open>keeps_device_path\<close> is the assumption on the driver that makes this last: an object
  reports the path it was constructed with, whatever is called on it.
\<close>

definition map_ok :: "'s lms_map \<Rightarrow> bool" where
  "map_ok m = (sorted_wrt (<) (map fst m) \<and> (\<forall>e \<in> set m. snd e \<noteq> None))"

definition paths_agree :: "'s driver \<Rightarrow> 's lms_map \<Rightarrow> bool" where
  "paths_agree drv m =
     (\<forall>e \<in> set m. case snd e of None \<Rightarrow> True | Some obj \<Rightarrow> GetSickDevicePath drv obj = fst e)"

definition keeps_device_path :: "'s driver \<Rightarrow> bool" where
  "keeps_device_path drv =
     ((\<forall>p. GetSickDevicePath drv (new_SickLMS drv p) = p)
      \<and> (\<forall>s b. GetSickDevicePath drv (snd (Initialize drv s b)) = GetSickDevicePath drv s)
      \<and> (\<forall>s a r. GetSickDevicePath drv (snd (SetSickVariant drv s a r)) = GetSickDevicePath drv s)
      \<and> (\<forall>s. GetSickDevicePath drv (snd (GetSickScan drv s)) = GetSickDevicePath drv s)
      \<and> (\<forall>s. GetSickDevicePath drv (snd (GetSickScan_reflect drv s)) = GetSickDevicePath drv s))"

text \<open>
  The events \<^verbatim>\<open>cleanup\<close> adds for an object \<open>obj\<close> found under the path \<open>p\<close>.
\<close>

definition teardown_events :: "'s driver \<Rightarrow> string \<Rightarrow> 's \<Rightarrow> event list" where
  "teardown_events drv p obj =
     (if IsInitialized drv obj
      then Ev_Uninitialize p #
           (if fst (Uninitialize drv obj) = None then []
            else [Ev_mexWarnMsgTxt Warn_exception_while_erasing])
      else []) @ [Ev_delete p]"

fun is_alloc :: "event \<Rightarrow> bool" where
  "is_alloc (Ev_new p) = True"
| "is_alloc (Ev_delete p) = True"
| "is_alloc e = False"

text \<open>
  An outcome is fatal when it is undefined behaviour of the C++ code; after any other
  outcome the MEX file is still loaded and takes the next command.
\<close>

fun fatal :: "mex_error \<Rightarrow> bool" where
  "fatal (MexErrMsgTxt m) = False"
| "fatal Null_dereference = True"
| "fatal Bad_argument_read = True"

fun survives :: "mex_error + 'a \<Rightarrow> bool" where
  "survives (Inl err) = (\<not> fatal err)"
| "survives (Inr x) = True"

text \<open>
  The ways a command changes the state, one after the other: it adds events that neither
  construct nor delete an object, a method call changes an object in the map, \<^verbatim>\<open>cleanup\<close>
  removes an entry, \<^verbatim>\<open>initSick\<close> adds one for a path that has none while there is room.
\<close>

inductive evolves :: "'s driver \<Rightarrow> 's mex_state \<Rightarrow> 's mex_state \<Rightarrow> bool" for drv st where
  same: "evolves drv st st"
| quiet: "evolves drv st st' \<Longrightarrow> \<forall>e \<in> set evs. \<not> is_alloc e \<Longrightarrow> evolves drv st (emit evs st')"
| mutate: "evolves drv st st' \<Longrightarrow> map_find (sick_lms_map st') p = Some (Some old)
           \<Longrightarrow> (keeps_device_path drv \<Longrightarrow> GetSickDevicePath drv old = p
                \<Longrightarrow> GetSickDevicePath drv obj = p)
           \<Longrightarrow> evolves drv st (set_object p obj st')"
| teardown: "evolves drv st st' \<Longrightarrow> map_find (sick_lms_map st') p = Some (Some obj)
           \<Longrightarrow> evolves drv st (cleanup drv p st')"
| create: "evolves drv st st' \<Longrightarrow> map_find (sick_lms_map st') p = None
           \<Longrightarrow> length (sick_lms_map st') < MAX_NUM_LMS_DEVICES
           \<Longrightarrow> evolves drv st (emit [Ev_new p] (set_object p (new_SickLMS drv p) st'))"

definition size_inv :: "'s mex_state \<Rightarrow> bool" where
  "size_inv st = (map_ok (sick_lms_map st) \<and> length (sick_lms_map st) \<le> MAX_NUM_LMS_DEVICES)"

definition live_inv :: "'s driver \<Rightarrow> 's mex_state \<Rightarrow> bool" where
  "live_inv drv st =
     (paths_agree drv (sick_lms_map st)
      \<and> one_live_per_path [] (trace st)
      \<and> set (foldl live_step [] (trace st)) = set (map fst (sick_lms_map st)))"

text \<open>
  The states the bridge can be in: it starts with an empty map, takes commands as long as
  none ends fatally, and may run its exit hook.
\<close>

inductive reachable :: "'s driver \<Rightarrow> 's mex_state \<Rightarrow> bool" for drv where
  start: "reachable drv mex_start"
| call: "reachable drv st \<Longrightarrow> mexFunction drv nlhs prhs st = (r, st') \<Longrightarrow> survives r
         \<Longrightarrow> reachable drv st'"
| exit: "reachable drv st \<Longrightarrow> mexExit drv st = Some st' \<Longrightarrow> reachable drv st'"

text \<open>
  Events that call \<^verbatim>\<open>Initialize\<close>, and those that call it with the sentinel
  \<^verbatim>\<open>SICK_BAUD_UNKNOWN\<close>, in the trace of the bridge and in the output of an example
  program.
\<close>

fun initializes_unknown :: "event \<Rightarrow> bool" where
  "initializes_unknown (Ev_Initialize p b) = (b = SICK_BAUD_UNKNOWN)"
| "initializes_unknown e = False"

fun app_initializes_unknown :: "app_event \<Rightarrow> bool" where
  "app_initializes_unknown (Call e) = initializes_unknown e"
| "app_initializes_unknown e = False"

fun is_Initialize :: "event \<Rightarrow> bool" where
  "is_Initialize (Ev_Initialize p b) = True"
| "is_Initialize e = False"

definition unknown_free :: "event list \<Rightarrow> bool" where
  "unknown_free evs = (\<forall>e \<in> set evs. \<not> initializes_unknown e)"

definition app_unknown_free :: "app_event list \<Rightarrow> bool" where
  "app_unknown_free out = (\<forall>x \<in> set out. \<not> app_initializes_unknown x)"

text \<open>
  The scans of one session in a row: the object after \<open>k\<close> calls of \<^verbatim>\<open>GetSickScan\<close>,
  what call number \<open>k\<close> (from 0) returns or throws, whether the acquisition loop goes on
  after it (a scan or a timeout), the line the loop writes for it, and what the loop adds
  to the output over the first \<open>n\<close> calls.
\<close>

definition scan_state :: "'s driver \<Rightarrow> 's \<Rightarrow> nat \<Rightarrow> 's" where
  "scan_state drv s k = ((\<lambda>x. snd (GetSickScan drv x)) ^^ k) s"

definition scan_result :: "'s driver \<Rightarrow> 's \<Rightarrow> nat \<Rightarrow> sick_exception + nat list" where
  "scan_result drv s k = fst (GetSickScan drv (scan_state drv s k))"

fun recoverable :: "sick_exception + nat list \<Rightarrow> bool" where
  "recoverable (Inr values) = True"
| "recoverable (Inl e) = is_SickTimeoutException e"

fun scan_line :: "sick_exception + nat list \<Rightarrow> app_event" where
  "scan_line (Inr values) = Cout_num_values (length values)"
| "scan_line (Inl e) = Cerr_what (what e)"

definition polled :: "'s driver \<Rightarrow> string \<Rightarrow> 's \<Rightarrow> nat \<Rightarrow> app_event list" where
  "polled drv device_str s n =
     concat (map (\<lambda>k. [Call (Ev_GetSickScan device_str), scan_line (scan_result drv s k)]) [0..<n])"

text \<open>The events that delete an object and those that call \<^verbatim>\<open>Uninitialize\<close>.\<close>

fun is_delete :: "event \<Rightarrow> bool" where
  "is_delete (Ev_delete p) = True"
| "is_delete e = False"

fun is_Uninitialize :: "event \<Rightarrow> bool" where
  "is_Uninitialize (Ev_Uninitialize p) = True"
| "is_Uninitialize e = False"

section \<open>Properties\<close>

subsection \<open>The map operations\<close>

lemma map_of_map_insert:
  "map_of (map_insert k v m) k' = (if k' = k then Some v else map_of m k')"
  by (induction m) auto

lemma keys_map_insert: "set (map fst (map_insert k v m)) = insert k (set (map fst m))"
proof (induction m)
  case Nil
  then show ?case by simp
next
  case (Cons e m)
  obtain k' v' where e: "e = (k', v')" by (cases e)
  have "set (map fst (map_insert k v m)) = insert k (set (map fst m))" by (rule Cons.IH)
  then show ?case unfolding e by (simp only: map_insert.simps list.map list.set fst_conv split: if_splits) blast
qed

lemma sorted_map_insert:
  "sorted_wrt (<) (map fst m) \<Longrightarrow> sorted_wrt (<) (map fst (map_insert k v m))"
proof (induction m)
  case Nil
  then show ?case by simp
next
  case (Cons e m)
  obtain k' v' where e: "e = (k', v')" by (cases e)
  from Cons.prems have tl: "sorted_wrt (<) (map fst m)" and hd: "\<forall>x \<in> set (map fst m). k' < x"
    by (auto simp: e)
  show ?case
  proof (cases "k < k'")
    case True
    with Cons.prems show ?thesis by (auto simp: e)
  next
    case False
    show ?thesis
    proof (cases "k = k'")
      case True
      with Cons.prems show ?thesis by (auto simp: e)
    next
      case neq: False
      with False have lt: "k' < k" by auto
      have "\<forall>x \<in> set (map fst (map_insert k v m)). k' < x"
        using hd lt by (simp only: keys_map_insert) auto
      with Cons.IH [OF tl] False neq show ?thesis by (simp add: e)
    qed
  qed
qed

lemma values_map_insert:
  "e \<in> set (map_insert k v m) \<Longrightarrow> e = (k, v) \<or> e \<in> set m"
  by (induction m) (auto split: if_splits)

lemma length_map_insert_le: "length (map_insert k v m) \<le> Suc (length m)"
  by (induction m) auto

lemma length_map_insert_present:
  "map_of m k \<noteq> None \<Longrightarrow> sorted_wrt (<) (map fst m) \<Longrightarrow> length (map_insert k v m) = length m"
proof (induction m)
  case Nil
  then show ?case by simp
next
  case (Cons e m)
  obtain k' v' where e: "e = (k', v')" by (cases e)
  show ?case
  proof (cases "k = k'")
    case True
    then show ?thesis by (simp add: e)
  next
    case False
    with Cons.prems have "map_of m k \<noteq> None" by (simp add: e)
    then have "k \<in> set (map fst m)" by (metis map_of_eq_None_iff set_map)
    with Cons.prems have "k' < k" by (auto simp: e)
    with Cons False \<open>map_of m k \<noteq> None\<close> show ?thesis by (auto simp: e)
  qed
qed

lemma map_of_map_erase:
  "map_of (map_erase k m) k' = (if k' = k then None else map_of m k')"
  by (induction m) (auto simp: map_erase_def)

lemma keys_map_erase: "set (map fst (map_erase k m)) = set (map fst m) - {k}"
  by (auto simp: map_erase_def)

lemma sorted_map_erase:
  "sorted_wrt (<) (map fst m) \<Longrightarrow> sorted_wrt (<) (map fst (map_erase k m))"
  by (induction m) (auto simp: map_erase_def)

lemma length_map_erase_le: "length (map_erase k m) \<le> length m"
  by (simp add: map_erase_def)

lemma length_map_erase:
  "sorted_wrt (<) (map fst m) \<Longrightarrow> map_of m k \<noteq> None \<Longrightarrow> Suc (length (map_erase k m)) = length m"
proof (induction m)
  case Nil
  then show ?case by simp
next
  case (Cons e m)
  obtain k' v' where e: "e = (k', v')" by (cases e)
  show ?case
  proof (cases "k = k'")
    case True
    from Cons.prems have "\<forall>x \<in> set m. fst x \<noteq> k'" by (auto simp: e)
    then have "filter (\<lambda>x. fst x \<noteq> k') m = m" by (simp add: filter_id_conv)
    with True show ?thesis by (simp add: e map_erase_def)
  next
    case False
    with Cons show ?thesis by (auto simp: e map_erase_def)
  qed
qed

lemma map_ok_erase: "map_ok m \<Longrightarrow> map_ok (map_erase k m)"
  by (auto simp: map_ok_def sorted_map_erase) (auto simp: map_erase_def)

lemma map_ok_insert: "map_ok m \<Longrightarrow> map_ok (map_insert k (Some obj) m)"
  by (auto simp: map_ok_def sorted_map_insert dest!: values_map_insert)

lemma paths_agree_erase: "paths_agree drv m \<Longrightarrow> paths_agree drv (map_erase k m)"
  by (auto simp: paths_agree_def map_erase_def)

lemma paths_agree_insert:
  "paths_agree drv m \<Longrightarrow> GetSickDevicePath drv obj = k
   \<Longrightarrow> paths_agree drv (map_insert k (Some obj) m)"
  by (auto simp: paths_agree_def dest!: values_map_insert)

lemma map_ok_lookup:
  "map_ok m \<Longrightarrow> map_of m k = Some v \<Longrightarrow> \<exists>obj. v = Some obj"
  by (auto simp: map_ok_def dest!: map_of_SomeD)

subsection \<open>Live objects along a trace\<close>

lemma one_live_distinct: "one_live_per_path live es \<Longrightarrow> distinct live"
  by (cases es) auto

lemma one_live_append:
  "one_live_per_path live (es @ es') =
     (one_live_per_path live es \<and> one_live_per_path (foldl live_step live es) es')"
  by (induction es arbitrary: live) (auto dest: one_live_distinct)

lemma foldl_quiet: "\<forall>e \<in> set es. \<not> is_alloc e \<Longrightarrow> foldl live_step live es = live"
proof (induction es)
  case Nil
  then show ?case by simp
next
  case (Cons e es)
  then show ?case by (cases e) auto
qed

lemma one_live_quiet:
  "\<forall>e \<in> set es. \<not> is_alloc e \<Longrightarrow> one_live_per_path live es = distinct live"
proof (induction es)
  case Nil
  then show ?case by simp
next
  case (Cons e es)
  then show ?case by (cases e) auto
qed

subsection \<open>How the commands change the state\<close>

lemma emit_simps [simp]:
  "sick_lms_map (emit evs st) = sick_lms_map st" "trace (emit evs st) = trace st @ evs"
  by (simp_all add: emit_def)

lemma set_object_simps [simp]:
  "sick_lms_map (set_object k obj st) = map_insert k (Some obj) (sick_lms_map st)"
  "trace (set_object k obj st) = trace st"
  by (simp_all add: set_object_def)

lemma map_find_insert [simp]:
  "map_find (map_insert k v m) k' = (if k' = k then Some v else map_find m k')"
  by (simp add: map_find_def map_of_map_insert)

lemma map_find_erase [simp]:
  "map_find (map_erase k m) k' = (if k' = k then None else map_find m k')"
  by (simp add: map_find_def map_of_map_erase)

lemma map_index_found: "map_find m k = Some v \<Longrightarrow> map_index m k = (v, m)"
  by (simp add: map_index_def)

lemma cleanup_found:
  "map_find (sick_lms_map st) p = Some (Some obj) \<Longrightarrow>
   cleanup drv p st = st\<lparr>sick_lms_map := map_erase p (sick_lms_map st),
                         trace := trace st @ teardown_events drv p obj\<rparr>"
  by (auto simp: cleanup_def map_index_found teardown_events_def emit_def Let_def
      split: prod.splits option.splits)

lemma teardown_events_live: "foldl live_step live (teardown_events drv p obj) = remove1 p live"
  by (simp add: teardown_events_def)

lemma teardown_events_one_live:
  "one_live_per_path live (teardown_events drv p obj) = distinct live"
  by (auto simp: teardown_events_def)

lemma evolves_size_inv: "evolves drv st st' \<Longrightarrow> size_inv st \<Longrightarrow> size_inv st'"
proof (induction rule: evolves.induct)
  case same
  then show ?case by simp
next
  case (quiet st' evs)
  then show ?case by (simp add: size_inv_def)
next
  case (mutate st' p old obj)
  then have "size_inv st'" by simp
  then have "sorted_wrt (<) (map fst (sick_lms_map st'))"
    by (simp add: size_inv_def map_ok_def)
  with mutate.hyps(2) have "length (map_insert p (Some obj) (sick_lms_map st')) = length (sick_lms_map st')"
    by (simp add: length_map_insert_present map_find_def)
  with \<open>size_inv st'\<close> show ?case
    by (simp add: size_inv_def map_ok_insert)
next
  case (teardown st' p obj)
  then have "size_inv st'" by simp
  then show ?case using length_map_erase_le [of p "sick_lms_map st'"]
    by (simp add: cleanup_found [OF teardown.hyps(2)] size_inv_def map_ok_erase)
next
  case (create st' p)
  then have "size_inv st'" by simp
  then show ?case using create.hyps(3) length_map_insert_le [of p "Some (new_SickLMS drv p)" "sick_lms_map st'"]
    by (simp add: size_inv_def map_ok_insert)
qed

lemma keys_present: "map_find m p = Some v \<Longrightarrow> p \<in> set (map fst m)"
  unfolding map_find_def by (metis map_of_eq_None_iff option.distinct(1) set_map)

lemma keys_absent: "map_find m p = None \<Longrightarrow> p \<notin> set (map fst m)"
  unfolding map_find_def by (metis map_of_eq_None_iff set_map)

lemma paths_agree_lookup:
  "paths_agree drv m \<Longrightarrow> map_find m p = Some (Some obj) \<Longrightarrow> GetSickDevicePath drv obj = p"
  by (auto simp: paths_agree_def map_find_def dest!: map_of_SomeD)

lemma one_live_final: "one_live_per_path live es \<Longrightarrow> distinct (foldl live_step live es)"
  by (induction es arbitrary: live) auto

lemma evolves_live_inv:
  "evolves drv st st' \<Longrightarrow> keeps_device_path drv \<Longrightarrow> live_inv drv st \<Longrightarrow> live_inv drv st'"
proof (induction rule: evolves.induct)
  case same
  then show ?case by simp
next
  case (quiet st' evs)
  then have "live_inv drv st'" by simp
  with quiet.hyps(2) show ?case
    by (auto simp: live_inv_def one_live_append foldl_quiet one_live_quiet dest: one_live_final)
next
  case (mutate st' p old obj)
  then have inv: "live_inv drv st'" by simp
  then have "GetSickDevicePath drv old = p"
    using mutate.hyps(2) by (auto simp: live_inv_def intro: paths_agree_lookup)
  with mutate have "GetSickDevicePath drv obj = p" by simp
  with inv keys_present [OF mutate.hyps(2)] show ?case
    by (simp only: live_inv_def set_object_simps keys_map_insert) (auto simp: paths_agree_insert)
next
  case (teardown st' p obj)
  then have inv: "live_inv drv st'" by simp
  then have d: "distinct (foldl live_step [] (trace st'))"
    by (auto simp: live_inv_def dest: one_live_final)
  from inv d show ?case
    by (simp add: cleanup_found [OF teardown.hyps(2)] live_inv_def paths_agree_erase
        one_live_append teardown_events_one_live teardown_events_live keys_map_erase
        del: set_map)
next
  case (create st' p)
  then have inv: "live_inv drv st'" by simp
  then have d: "distinct (foldl live_step [] (trace st'))"
    by (auto simp: live_inv_def dest: one_live_final)
  from create.prems have "GetSickDevicePath drv (new_SickLMS drv p) = p"
    by (simp add: keeps_device_path_def)
  with inv d keys_absent [OF create.hyps(2)] show ?case
    by (simp add: live_inv_def paths_agree_insert one_live_append keys_map_insert del: set_map)
qed


lemma resolve_device_state:
  "resolve_device drv n prhs st = (r, st') \<Longrightarrow> survives r \<Longrightarrow> st' = st"
  by (auto simp: resolve_device_def mexErrMsgTxt_def Let_def
      split: if_splits option.splits sum.splits prod.splits)

lemma resolve_device_found:
  "resolve_device drv n prhs st = (Inr (p, obj), st') \<Longrightarrow>
   st' = st \<and> map_find (sick_lms_map st) p = Some (Some obj) \<and> IsInitialized drv obj"
  by (auto simp: resolve_device_def mexErrMsgTxt_def map_index_def
      split: if_splits option.splits sum.splits prod.splits)

lemma output_args_check_state:
  "output_args_check drv b p st = (r, st') \<Longrightarrow> survives r \<Longrightarrow> st' = st"
  by (auto simp: output_args_check_def mexErrMsgTxt_def
      split: if_splits option.splits prod.splits)

lemma keeps_Initialize:
  "keeps_device_path drv \<Longrightarrow> Initialize drv s b = (x, s')
   \<Longrightarrow> GetSickDevicePath drv s' = GetSickDevicePath drv s"
  by (metis keeps_device_path_def snd_conv)

lemma keeps_SetSickVariant:
  "keeps_device_path drv \<Longrightarrow> SetSickVariant drv s a r = (x, s')
   \<Longrightarrow> GetSickDevicePath drv s' = GetSickDevicePath drv s"
  by (metis keeps_device_path_def snd_conv)

lemma keeps_GetSickScan:
  "keeps_device_path drv \<Longrightarrow> GetSickScan drv s = (x, s')
   \<Longrightarrow> GetSickDevicePath drv s' = GetSickDevicePath drv s"
  by (metis keeps_device_path_def snd_conv)

lemma keeps_GetSickScan_reflect:
  "keeps_device_path drv \<Longrightarrow> GetSickScan_reflect drv s = (x, s')
   \<Longrightarrow> GetSickDevicePath drv s' = GetSickDevicePath drv s"
  by (metis keeps_device_path_def snd_conv)

lemma keeps_new: "keeps_device_path drv \<Longrightarrow> GetSickDevicePath drv (new_SickLMS drv p) = p"
  by (simp add: keeps_device_path_def)

lemma evolves_mutate:
  assumes "evolves drv st0 st" and "map_find (sick_lms_map st) p = Some (Some obj)"
    and "keeps_device_path drv \<Longrightarrow> GetSickDevicePath drv obj' = GetSickDevicePath drv obj"
  shows "evolves drv st0 (set_object p obj' st)"
  using assms(1,2) by (rule evolves.mutate) (simp add: assms(3))

lemma clearSick_evolves:
  assumes "clearSick drv nlhs prhs st = (r, st')" and "survives r"
  shows "evolves drv st st'"
proof (cases "resolve_device drv 1 prhs st")
  case (Pair x st1)
  show ?thesis
  proof (cases x)
    case (Inl err)
    with assms Pair resolve_device_state [OF Pair] have "st' = st"
      by (auto simp: clearSick_def mexErrMsgTxt_def split: if_splits)
    then show ?thesis by (simp add: evolves.same)
  next
    case (Inr po)
    obtain p obj where po: "po = (p, obj)" by (cases po)
    from Pair Inr po have "resolve_device drv 1 prhs st = (Inr (p, obj), st1)" by simp
    from resolve_device_found [OF this]
    have f: "st1 = st" "map_find (sick_lms_map st) p = Some (Some obj)" by simp_all
    from assms Pair Inr po f have "st' = st \<or> st' = cleanup drv p st"
      by (auto simp: clearSick_def mexErrMsgTxt_def split: if_splits)
    with f show ?thesis by (auto intro: evolves.intros)
  qed
qed

lemma printSickInfo_evolves:
  assumes "printSickInfo drv nlhs prhs st = (r, st')" and "survives r"
  shows "evolves drv st st'"
proof (cases "resolve_device drv 1 prhs st")
  case (Pair x st1)
  show ?thesis
  proof (cases x)
    case (Inl err)
    with assms Pair resolve_device_state [OF Pair] have "st' = st"
      by (auto simp: printSickInfo_def mexErrMsgTxt_def split: if_splits)
    then show ?thesis by (simp add: evolves.same)
  next
    case (Inr po)
    obtain p obj where po: "po = (p, obj)" by (cases po)
    from Pair Inr po have "resolve_device drv 1 prhs st = (Inr (p, obj), st1)" by simp
    from resolve_device_found [OF this] have f: "st1 = st" by simp
    from assms Pair Inr po f show ?thesis
      by (auto simp: printSickInfo_def mexErrMsgTxt_def split: if_splits intro!: evolves.quiet evolves.same)
  qed
qed

lemma setSickVariant_evolves:
  assumes "setSickVariant drv nlhs prhs st = (r, st')" and "survives r"
  shows "evolves drv st st'"
proof (cases "resolve_device drv 3 prhs st")
  case (Pair x st1)
  show ?thesis
  proof (cases x)
    case (Inl err)
    with assms Pair resolve_device_state [OF Pair] have "st' = st"
      by (auto simp: setSickVariant_def mexErrMsgTxt_def split: if_splits)
    then show ?thesis by (simp add: evolves.same)
  next
    case (Inr po)
    obtain p obj where po: "po = (p, obj)" by (cases po)
    from Pair Inr po have "resolve_device drv 3 prhs st = (Inr (p, obj), st1)" by simp
    from resolve_device_found [OF this]
    have f: "st1 = st" "map_find (sick_lms_map st) p = Some (Some obj)" by simp_all
    have step: "evolves drv st (set_object p obj' (emit evs st))"
      if "SetSickVariant drv obj a res = (x, obj')" "\<forall>e \<in> set evs. \<not> is_alloc e"
      for a res x obj' evs
    proof -
      have "evolves drv st (emit evs st)" using that(2) by (intro evolves.quiet evolves.same)
      moreover have "map_find (sick_lms_map (emit evs st)) p = Some (Some obj)" using f by simp
      ultimately show ?thesis
        using keeps_SetSickVariant [OF _ that(1)] by (rule evolves_mutate)
    qed
    have tear: "evolves drv st (cleanup drv p (set_object p obj' (emit evs st)))"
      if "SetSickVariant drv obj a res = (x, obj')" "\<forall>e \<in> set evs. \<not> is_alloc e"
      for a res x obj' evs
      by (rule evolves.teardown [OF step [OF that]]) simp
    from assms Pair Inr po f show ?thesis
      by (auto simp: setSickVariant_def mexErrMsgTxt_def Let_def
          split: if_splits option.splits prod.splits
          intro!: evolves.same evolves.quiet step tear)
  qed
qed


lemma grabSickVals_evolves:
  assumes "grabSickVals drv nlhs prhs st = (r, st')" and "survives r"
  shows "evolves drv st st'"
proof -
  obtain r0 st0 where c0: "output_args_check drv (nlhs > 2) [] st = (r0, st0)" by fastforce
  obtain r1 st1 where c1: "output_args_check drv (nlhs > 1) [] st0 = (r1, st1)" by fastforce
  obtain x st2 where c2: "resolve_device drv 1 prhs st1 = (x, st2)" by fastforce
  show ?thesis
  proof (cases "length prhs > 2 \<or> \<not> (\<exists>po. r0 = Inr () \<and> r1 = Inr () \<and> x = Inr po)")
    case True
    with assms c0 c1 c2
      output_args_check_state [OF c0] output_args_check_state [OF c1] resolve_device_state [OF c2]
    have "st' = st"
      by (auto simp: grabSickVals_def mexErrMsgTxt_def split: if_splits sum.splits)
    then show ?thesis by (simp add: evolves.same)
  next
    case False
    then obtain p obj where ok: "\<not> length prhs > 2" "r0 = Inr ()" "r1 = Inr ()" "x = Inr (p, obj)"
      by auto
    from c0 c1 ok output_args_check_state [OF c0] output_args_check_state [OF c1]
    have s: "st0 = st" "st1 = st" by simp_all
    from c2 ok s have "resolve_device drv 1 prhs st = (Inr (p, obj), st2)" by simp
    from resolve_device_found [OF this]
    have f: "st2 = st" "map_find (sick_lms_map st) p = Some (Some obj)" by simp_all
    have step: "evolves drv st (set_object p obj' (emit [Ev_GetSickScan p] st))"
      if "(\<exists>x. GetSickScan drv obj = (x, obj')) \<or> (\<exists>y. GetSickScan_reflect drv obj = (y, obj'))"
      for obj'
    proof -
      have "evolves drv st (emit [Ev_GetSickScan p] st)"
        by (intro evolves.quiet evolves.same) simp
      moreover have "map_find (sick_lms_map (emit [Ev_GetSickScan p] st)) p = Some (Some obj)"
        using f by simp
      moreover have "GetSickDevicePath drv obj' = GetSickDevicePath drv obj"
        if "keeps_device_path drv"
        using that \<open>(\<exists>x. GetSickScan drv obj = (x, obj')) \<or> (\<exists>y. GetSickScan_reflect drv obj = (y, obj'))\<close>
        by (auto dest: keeps_GetSickScan keeps_GetSickScan_reflect)
      ultimately show ?thesis by (rule evolves_mutate)
    qed
    have tear: "evolves drv st (cleanup drv p (set_object p obj' (emit [Ev_GetSickScan p] st)))"
      if "(\<exists>x. GetSickScan drv obj = (x, obj')) \<or> (\<exists>y. GetSickScan_reflect drv obj = (y, obj'))"
      for obj'
      by (rule evolves.teardown [OF step [OF that]]) simp
    from assms(1) c0 c1 c2 ok s f show ?thesis
      by (auto simp: grabSickVals_def grabSickVals_catch_def mexErrMsgTxt_def Let_def
          split: if_splits sum.splits prod.splits intro!: step tear)
  qed
qed


lemma sickInMap_iff: "sickInMap p st = (map_find (sick_lms_map st) p \<noteq> None)"
  by (simp add: sickInMap_def)

lemma cleanup_map:
  "map_find (sick_lms_map st) p = Some (Some obj) \<Longrightarrow>
   sick_lms_map (cleanup drv p st) = map_erase p (sick_lms_map st)"
  by (simp add: cleanup_found)

lemma initSick_open_evolves:
  assumes e1: "evolves drv st st1" and n1: "map_find (sick_lms_map st1) p = None"
    and l1: "length (sick_lms_map st1) < MAX_NUM_LMS_DEVICES"
    and run: "initSick_open drv p a st1 = (r, st')" and ok: "survives r"
  shows "evolves drv st st'"
proof -
  define stc where "stc = emit [Ev_new p] (set_object p (new_SickLMS drv p) st1)"
  have ec: "evolves drv st stc"
    unfolding stc_def using e1 n1 l1 by (rule evolves.create)
  have e2: "evolves drv st (emit [Ev_mexPrintf m, Ev_Initialize p b] stc)" (is "evolves drv st (?st2 m b)")
    for m b
    using ec by (rule evolves.quiet) simp
  have f2: "map_find (sick_lms_map (?st2 m b)) p = Some (Some (new_SickLMS drv p))" for m b
    by (simp add: stc_def)
  have e3: "evolves drv st (set_object p obj (?st2 m b))"
    if "Initialize drv (new_SickLMS drv p) b' = (x, obj)" for m b b' x obj
    using e2 f2 keeps_Initialize [OF _ that] by (rule evolves_mutate)
  have t3: "evolves drv st (cleanup drv p (set_object p obj (?st2 m b)))"
    if "Initialize drv (new_SickLMS drv p) b' = (x, obj)" for m b b' x obj
    by (rule evolves.teardown [OF e3 [OF that]]) simp
  have e4: "evolves drv st (emit [Ev_mexPrintf m'] (set_object p obj (?st2 m b)))"
    if "Initialize drv (new_SickLMS drv p) b' = (x, obj)" for m b b' x obj m'
    using e3 [OF that] by (rule evolves.quiet) simp
  have t4: "evolves drv st (cleanup drv p (emit [Ev_mexPrintf m'] (set_object p obj (?st2 m b))))"
    if "Initialize drv (new_SickLMS drv p) b' = (x, obj)" for m b b' x obj m'
    by (rule evolves.teardown [OF e4 [OF that]]) simp
  have e5: "evolves drv st (emit [Ev_mexAtExit] (emit [Ev_mexPrintf m'] (set_object p obj (?st2 m b))))"
    if "Initialize drv (new_SickLMS drv p) b' = (x, obj)" for m b b' x obj m'
    using e4 [OF that] by (rule evolves.quiet) simp
  from run ok e1 show ?thesis
    unfolding initSick_open_def initSick_catch_def mexErrMsgTxt_def Let_def stc_def [symmetric]
    by (auto split: if_splits option.splits sum.splits prod.splits
        intro!: t3 t4 e5)
qed

lemma initSick_evolves:
  assumes run: "initSick drv nlhs prhs st = (r, st')" and ok: "survives r"
    and le: "length (sick_lms_map st) \<le> MAX_NUM_LMS_DEVICES"
  shows "evolves drv st st'"
proof (cases "length prhs \<noteq> 3 \<or> nlhs > 1 \<or> mxGetString (prhs ! 1) ARG_BUFF_LENGTH = None
              \<or> length (sick_lms_map st) = MAX_NUM_LMS_DEVICES")
  case True
  with run have "st' = st"
    by (auto simp: initSick_def mexErrMsgTxt_def split: if_splits option.splits)
  then show ?thesis by (simp add: evolves.same)
next
  case False
  then obtain p where args: "length prhs = 3" "\<not> nlhs > 1"
    "mxGetString (prhs ! 1) ARG_BUFF_LENGTH = Some p"
    "length (sick_lms_map st) \<noteq> MAX_NUM_LMS_DEVICES"
    by auto
  from args(4) le have lt: "length (sick_lms_map st) < MAX_NUM_LMS_DEVICES" by simp
  show ?thesis
  proof (cases "map_find (sick_lms_map st) p")
    case None
    with run args have "initSick_open drv p (prhs ! 2) st = (r, st')"
      by (simp add: initSick_def sickInMap_iff)
    with evolves.same None lt show ?thesis using ok by (rule initSick_open_evolves)
  next
    case (Some ptr)
    show ?thesis
    proof (cases ptr)
      case None
      with run args Some ok show ?thesis
        by (auto simp: initSick_def sickInMap_iff map_index_found)
    next
      case (Some obj)
      define st0 where "st0 = (if IsInitialized drv obj
          then emit [Ev_mexWarnMsgTxt (Warn_is_initialized p)] st else st)"
      have f0: "map_find (sick_lms_map st0) p = Some (Some obj)"
        using \<open>map_find (sick_lms_map st) p = Some ptr\<close> Some by (simp add: st0_def)
      have "evolves drv st st0"
        unfolding st0_def by (auto intro!: evolves.quiet evolves.same)
      then have e1: "evolves drv st (cleanup drv p st0)" using f0 by (rule evolves.teardown)
      have n1: "map_find (sick_lms_map (cleanup drv p st0)) p = None"
        by (simp add: cleanup_map [OF f0])
      have m0: "sick_lms_map st0 = sick_lms_map st" by (simp add: st0_def)
      have "length (sick_lms_map (cleanup drv p st0)) \<le> length (sick_lms_map st)"
        using length_map_erase_le [of p "sick_lms_map st"]
        by (simp add: cleanup_map [OF f0] m0)
      with lt have l1: "length (sick_lms_map (cleanup drv p st0)) < MAX_NUM_LMS_DEVICES" by simp
      from run args Some \<open>map_find (sick_lms_map st) p = Some ptr\<close>
      have "initSick_open drv p (prhs ! 2) (cleanup drv p st0) = (r, st')"
        by (simp add: initSick_def sickInMap_iff map_index_found st0_def)
      with e1 n1 l1 show ?thesis using ok by (rule initSick_open_evolves)
    qed
  qed
qed


lemma returning_cases:
  "returning f x = (r, st') \<Longrightarrow> \<exists>r0. x = (r0, st') \<and> survives r0 = survives r"
  by (auto simp: returning_def split: prod.splits sum.splits)

lemma mexFunction_evolves:
  assumes run: "mexFunction drv nlhs prhs st = (r, st')" and ok: "survives r"
    and le: "length (sick_lms_map st) \<le> MAX_NUM_LMS_DEVICES"
  shows "evolves drv st st'"
  using run ok le unfolding mexFunction_def mexErrMsgTxt_def
  by (auto split: if_splits option.splits dest!: returning_cases
      intro: evolves.same initSick_evolves clearSick_evolves setSickVariant_evolves
        grabSickVals_evolves printSickInfo_evolves)

lemma map_erase_head:
  "sorted_wrt (<) (map fst ((k, v) # m)) \<Longrightarrow> map_erase k ((k, v) # m) = m"
  by (auto simp: map_erase_def filter_id_conv)

lemma mexExit_runs:
  "map_ok (sick_lms_map st) \<Longrightarrow>
   mexExit drv st =
     Some (st\<lparr>sick_lms_map := [],
              trace := trace st @
                concat (map (\<lambda>e. teardown_events drv (fst e) (the (snd e))) (sick_lms_map st))\<rparr>)"
proof (induction m \<equiv> "sick_lms_map st" arbitrary: st)
  case Nil
  then show ?case by (subst mexExit.simps) simp
next
  case (Cons e m)
  obtain k v where e: "e = (k, v)" by (cases e)
  have m0: "sick_lms_map st = (k, v) # m" using Cons.hyps(2) e by simp
  from Cons.prems obtain obj where v: "v = Some obj"
    by (auto simp: map_ok_def m0)
  have m: "sick_lms_map st = (k, Some obj) # m" using m0 v by simp
  then have f: "map_find (sick_lms_map st) k = Some (Some obj)" by (simp add: map_find_def)
  from Cons.prems have srt: "sorted_wrt (<) (map fst ((k, Some obj) # m))"
    by (simp add: map_ok_def m)
  have cm: "sick_lms_map (cleanup drv k st) = m"
    using map_erase_head [OF srt] by (simp add: cleanup_map [OF f] m)
  have ct: "trace (cleanup drv k st) = trace st @ teardown_events drv k obj"
    by (simp add: cleanup_found [OF f])
  from Cons.prems have ok': "map_ok (sick_lms_map (cleanup drv k st))"
    by (simp add: cm map_ok_def m)
  have "mexExit drv st = mexExit drv (cleanup drv k st)"
    by (subst mexExit.simps) (simp add: m)
  also have "\<dots> = Some ((cleanup drv k st)\<lparr>sick_lms_map := [],
      trace := trace (cleanup drv k st) @
        concat (map (\<lambda>e. teardown_events drv (fst e) (the (snd e))) m)\<rparr>)"
    using Cons.hyps(1) [OF cm [symmetric] ok'] by (simp add: cm)
  finally show ?case by (simp add: cleanup_found [OF f] m)
qed

lemma concat_teardown_live:
  "sorted_wrt (<) (map fst m) \<Longrightarrow> set (map fst m) \<subseteq> set live \<Longrightarrow> distinct live \<Longrightarrow>
   one_live_per_path live (concat (map (\<lambda>e. teardown_events drv (fst e) (the (snd e))) m))
   \<and> set (foldl live_step live (concat (map (\<lambda>e. teardown_events drv (fst e) (the (snd e))) m)))
       = set live - set (map fst m)"
proof (induction m arbitrary: live)
  case Nil
  then show ?case by simp
next
  case (Cons e m)
  have d: "distinct (remove1 (fst e) live)" using Cons.prems(3) by simp
  have sub: "set (map fst m) \<subseteq> set (remove1 (fst e) live)"
    using Cons.prems by (auto simp: set_remove1_eq)
  from Cons.prems(1) have srt: "sorted_wrt (<) (map fst m)" by simp
  from Cons.IH [OF srt sub d] Cons.prems(3) show ?case
    by (auto simp: one_live_append teardown_events_one_live teardown_events_live set_remove1_eq)
qed

lemma reachable_invariants:
  "reachable drv st \<Longrightarrow> size_inv st \<and> (keeps_device_path drv \<longrightarrow> live_inv drv st)"
proof (induction rule: reachable.induct)
  case start
  then show ?case
    by (simp add: size_inv_def live_inv_def map_ok_def paths_agree_def mex_start_def)
next
  case (call st nlhs prhs r st')
  then have "evolves drv st st'" by (auto simp: size_inv_def intro: mexFunction_evolves)
  with call.IH show ?case by (auto intro: evolves_size_inv evolves_live_inv)
next
  case (exit st st')
  then have ok: "map_ok (sick_lms_map st)" by (simp add: size_inv_def)
  from exit.hyps(2) have st': "st' = st\<lparr>sick_lms_map := [],
      trace := trace st @
        concat (map (\<lambda>e. teardown_events drv (fst e) (the (snd e))) (sick_lms_map st))\<rparr>"
    by (simp add: mexExit_runs [OF ok])
  have s: "size_inv st'" by (simp add: st' size_inv_def map_ok_def)
  have "live_inv drv st'" if "live_inv drv st"
  proof -
    from that have d: "distinct (foldl live_step [] (trace st))"
      and eq: "set (map fst (sick_lms_map st)) \<subseteq> set (foldl live_step [] (trace st))"
      by (auto simp: live_inv_def dest: one_live_final)
    from ok have "sorted_wrt (<) (map fst (sick_lms_map st))" by (simp add: map_ok_def)
    from concat_teardown_live [OF this eq d, of drv] that show ?thesis
      by (simp add: st' live_inv_def paths_agree_def one_live_append del: set_map)
  qed
  with s exit.IH show ?case by simp
qed

subsection \<open>Running the model on the simulated device\<close>

lemmas bridge_defs =
  mexFunction_def returning_def strcasecmp_eq_def initSick_def initSick_open_def
  initSick_catch_def clearSick_def printSickInfo_def setSickVariant_def grabSickVals_def
  grabSickVals_catch_def grab_result_def output_args_check_def resolve_device_def
  cleanup_def sickInMap_def map_index_def map_find_def map_erase_def set_object_def emit_def
  mexErrMsgTxt_def arg_double_def int_of_double_def IntToSickBaud_def IntToSickScanAngle_def
  DoubleToSickScanResolution_def ARG_BUFF_LENGTH_def MAX_NUM_LMS_DEVICES_def

lemmas sim_defs = sim_driver_def sim_session_def sim_values_def sim_times_out_def
  sim_breaks_def mex_start_def

lemma sim_one_run:
  "mexFunction sim_driver 1 [MxString ''init'', MxString ''/dev/ttyUSB0'', MxDouble 38400] mex_start
   = (Inr (Out_init \<lparr>init_path = ''/dev/ttyUSB0'', init_lms_fast = False, init_units_mm = True,
                      init_meas_mode = SICK_MS_MODE_RANGE\<rparr>), sim_one)"
  by (simp add: bridge_defs sim_defs sim_one_def)

lemma sim_one_reachable: "reachable sim_driver sim_one"
  by (rule reachable.call [OF reachable.start sim_one_run]) simp

subsection \<open>The device limit\<close>

lemma initSick_full:
  assumes "length (sick_lms_map st) = MAX_NUM_LMS_DEVICES"
  shows "initSick drv nlhs prhs st =
           (Inl (MexErrMsgTxt
                  (if length prhs \<noteq> 3 then Msg_init_input_args
                   else if nlhs > 1 then Msg_output_args
                   else if mxGetString (prhs ! 1) ARG_BUFF_LENGTH = None
                   then Msg_could_not_read_argument
                   else Msg_max_devices)), st)"
  using assms by (auto simp: initSick_def mexErrMsgTxt_def)

lemma initSick_open_not_full:
  "fst (initSick_open drv p a st) \<noteq> Inl (MexErrMsgTxt Msg_max_devices)"
  by (auto simp: initSick_open_def initSick_catch_def mexErrMsgTxt_def Let_def
      split: option.splits prod.splits sum.splits)

lemma initSick_not_full:
  assumes "length (sick_lms_map st) \<noteq> MAX_NUM_LMS_DEVICES"
  shows "fst (initSick drv nlhs prhs st) \<noteq> Inl (MexErrMsgTxt Msg_max_devices)"
  using assms initSick_open_not_full [of drv]
  by (auto simp: initSick_def mexErrMsgTxt_def split: option.splits)

subsection \<open>Finding the device of a command\<close>

lemma resolve_default:
  assumes "sick_lms_map st = [(p, Some obj)]" and "GetSickDevicePath drv obj = p"
    and "length prhs = n"
  shows "resolve_device drv n prhs st =
           (if IsInitialized drv obj then (Inr (p, obj), st)
            else (Inl (MexErrMsgTxt Msg_not_initialized), st))"
  using assms by (simp add: resolve_device_def map_index_def map_find_def mexErrMsgTxt_def)

lemma resolve_explicit:
  assumes "map_find (sick_lms_map st) p = Some (Some obj)"
    and "length prhs = Suc n" and "prhs ! n = MxString p" and "length p < ARG_BUFF_LENGTH"
  shows "resolve_device drv n prhs st =
           (if IsInitialized drv obj then (Inr (p, obj), st)
            else (Inl (MexErrMsgTxt Msg_not_initialized), st))"
  using assms
  by (auto simp: resolve_device_def map_index_def sickInMap_def mexErrMsgTxt_def map_find_def)

lemma resolve_multiple:
  assumes "length (sick_lms_map st) > 1" and "length prhs = n"
  shows "resolve_device drv n prhs st = (Inl (MexErrMsgTxt Msg_multiple_devices), st)"
  using assms by (auto simp: resolve_device_def mexErrMsgTxt_def)

lemma resolve_unknown:
  assumes "map_find (sick_lms_map st) q = None"
    and "length prhs = Suc n" and "prhs ! n = MxString q" and "length q < ARG_BUFF_LENGTH"
  shows "resolve_device drv n prhs st =
           (Inl (MexErrMsgTxt (if sick_lms_map st = [] then Msg_no_device_yet
                               else Msg_no_device_for_path)), st)"
  using assms by (auto simp: resolve_device_def sickInMap_def mexErrMsgTxt_def)

lemma resolve_same:
  assumes "sick_lms_map st = [(p, Some obj)]" and "GetSickDevicePath drv obj = p"
    and "length p < ARG_BUFF_LENGTH" and "length prhs = n"
  shows "resolve_device drv n prhs st = resolve_device drv n (prhs @ [MxString p]) st"
proof -
  have "map_find (sick_lms_map st) p = Some (Some obj)" using assms(1) by (simp add: map_find_def)
  from resolve_explicit [OF this, of "prhs @ [MxString p]" n drv] assms(3,4)
    resolve_default [OF assms(1,2,4)]
  show ?thesis by (simp add: nth_append)
qed

lemma output_args_check_Inr: "output_args_check drv b p st = (Inr u, st') \<Longrightarrow> st' = st"
  by (auto simp: output_args_check_def mexErrMsgTxt_def split: if_splits option.splits prod.splits)

lemma grabSickVals_resolve_cong:
  assumes "resolve_device drv 1 prhs st = resolve_device drv 1 prhs' st"
    and "\<not> length prhs > 2" and "\<not> length prhs' > 2"
  shows "grabSickVals drv nlhs prhs st = grabSickVals drv nlhs prhs' st"
proof -
  obtain r0 st0 where c0: "output_args_check drv (2 < nlhs) [] st = (r0, st0)" by fastforce
  obtain r1 st1 where c1: "output_args_check drv (1 < nlhs) [] st0 = (r1, st1)" by fastforce
  show ?thesis
  proof (cases r0)
    case (Inl e)
    then show ?thesis using assms c0 by (simp add: grabSickVals_def)
  next
    case r0: (Inr u)
    with c0 have s0: "st0 = st" by (auto dest: output_args_check_Inr)
    show ?thesis
    proof (cases r1)
      case (Inl e)
      then show ?thesis using assms c0 c1 r0 by (simp add: grabSickVals_def)
    next
      case (Inr u')
      with c1 have "st1 = st0" by (auto dest: output_args_check_Inr)
      then show ?thesis using assms c0 c1 r0 Inr s0 by (simp add: grabSickVals_def)
    qed
  qed
qed

subsection \<open>What \<^verbatim>\<open>grab\<close> returns\<close>

lemma grabSickVals_returns:
  assumes run: "grabSickVals drv nlhs prhs st = (Inr out, st')"
  shows "\<exists>p obj obj' pri sec mode.
           map_find (sick_lms_map st) p = Some (Some obj)
           \<and> (if IsSickLMSFast drv obj then GetSickScan_reflect drv obj = (Inr (pri, sec), obj')
               else GetSickScan drv obj = (Inr pri, obj') \<and> sec = [])
           \<and> GetSickMeasuringMode drv obj' = Inr mode
           \<and> GetSickScanResolution drv obj' = Inr (grab_res out)
           \<and> GetSickScanAngle drv obj' = Inr (grab_fov out)
           \<and> out = grab_result (IsSickLMSFast drv obj') pri sec mode (grab_res out) (grab_fov out)
           \<and> st' = set_object p obj' (emit [Ev_GetSickScan p] st)"
proof -
  obtain r0 st0 where c0: "output_args_check drv (nlhs > 2) [] st = (r0, st0)" by fastforce
  obtain r1 st1 where c1: "output_args_check drv (nlhs > 1) [] st0 = (r1, st1)" by fastforce
  obtain x st2 where c2: "resolve_device drv 1 prhs st1 = (x, st2)" by fastforce
  from run c0 c1 c2 obtain u u' p obj where ok: "r0 = Inr u" "r1 = Inr u'" "x = Inr (p, obj)"
    by (auto simp: grabSickVals_def mexErrMsgTxt_def split: if_splits sum.splits)
  from c0 c1 ok have s: "st0 = st" "st1 = st" by (auto dest: output_args_check_Inr)
  from c2 ok s have "resolve_device drv 1 prhs st = (Inr (p, obj), st2)" by simp
  from resolve_device_found [OF this]
  have f: "st2 = st" "map_find (sick_lms_map st) p = Some (Some obj)" by simp_all
  define scan where "scan =
    (if IsSickLMSFast drv obj then GetSickScan_reflect drv obj
     else (case GetSickScan drv obj of
             (Inl e, obj') \<Rightarrow> (Inl e, obj')
           | (Inr pri_values, obj') \<Rightarrow> (Inr (pri_values, []), obj')))"
  obtain y obj' where sc: "scan = (y, obj')" by fastforce
  from run c0 c1 c2 ok s f sc obtain pri sec where y: "y = Inr (pri, sec)"
    by (cases y)
      (auto simp: grabSickVals_def grabSickVals_catch_def mexErrMsgTxt_def Let_def
        scan_def [symmetric] split: if_splits)
  from run c0 c1 c2 ok s f sc y obtain mode where mode: "GetSickMeasuringMode drv obj' = Inr mode"
    by (cases "GetSickMeasuringMode drv obj'")
      (auto simp: grabSickVals_def grabSickVals_catch_def mexErrMsgTxt_def Let_def
        scan_def [symmetric] split: if_splits)
  from run c0 c1 c2 ok s f sc y mode obtain res where res: "GetSickScanResolution drv obj' = Inr res"
    by (cases "GetSickScanResolution drv obj'")
      (auto simp: grabSickVals_def grabSickVals_catch_def mexErrMsgTxt_def Let_def
        scan_def [symmetric] split: if_splits)
  from run c0 c1 c2 ok s f sc y mode res obtain fov where fov: "GetSickScanAngle drv obj' = Inr fov"
    by (cases "GetSickScanAngle drv obj'")
      (auto simp: grabSickVals_def grabSickVals_catch_def mexErrMsgTxt_def Let_def
        scan_def [symmetric] split: if_splits)
  from run c0 c1 c2 ok s f sc y mode res fov
  have out: "out = grab_result (IsSickLMSFast drv obj') pri sec mode res fov"
    and st': "st' = set_object p obj' (emit [Ev_GetSickScan p] st)"
    by (auto simp: grabSickVals_def mexErrMsgTxt_def Let_def scan_def [symmetric]
        split: if_splits)
  have fr: "grab_res out = res" "grab_fov out = fov"
    by (simp_all add: out grab_result_def Let_def)
  have scan': "if IsSickLMSFast drv obj then GetSickScan_reflect drv obj = (Inr (pri, sec), obj')
               else GetSickScan drv obj = (Inr pri, obj') \<and> sec = []"
    using sc y by (auto simp: scan_def split: if_splits prod.splits sum.splits)
  from f scan' mode res fov out st' show ?thesis unfolding fr [symmetric] by blast
qed

lemma sim_grab_run:
  "grabSickVals sim_driver 1 [MxString ''grab''] sim_one
   = (Inr (grab_result False (replicate 361 1000) [] SICK_MS_MODE_RANGE (1/2) 180),
      set_object ''/dev/ttyUSB0'' sim_scan (emit [Ev_GetSickScan ''/dev/ttyUSB0''] sim_one))"
  by (simp add: grabSickVals_def output_args_check_def resolve_device_def map_index_def
      map_find_def sim_one_def sim_driver_def sim_session_def sim_scan_def sim_values_def
      sim_times_out_def sim_breaks_def set_object_def emit_def)

subsection \<open>The baud rate that reaches the driver\<close>

lemma IntToSickBaud_unknown:
  "(IntToSickBaud n = SICK_BAUD_UNKNOWN) = (n \<notin> {9600, 19200, 38400, 500000})"
  by (simp add: IntToSickBaud_def)

lemma StringToSickBaud_unknown:
  "(StringToSickBaud s = SICK_BAUD_UNKNOWN) = (s \<notin> {''9600'', ''19200'', ''38400'', ''500000''})"
  by (simp add: StringToSickBaud_def)

lemma parse_args_unknown:
  "StringToSickBaud b = SICK_BAUD_UNKNOWN \<Longrightarrow>
   parse_args [a0, dev, b] = Inl (- 1, [Cerr_invalid_baud])"
  by (simp add: parse_args_def)

lemma parse_args_baud:
  "parse_args argv = Inr (dev, b) \<Longrightarrow> b \<noteq> SICK_BAUD_UNKNOWN"
  by (auto simp: parse_args_def Let_def split: if_splits)

lemma app_unknown_free_simps [simp]:
  "app_unknown_free []"
  "app_unknown_free (x # out) = (\<not> app_initializes_unknown x \<and> app_unknown_free out)"
  "app_unknown_free (out @ out') = (app_unknown_free out \<and> app_unknown_free out')"
  by (auto simp: app_unknown_free_def)

lemma parse_args_quiet:
  "parse_args argv = Inl r \<Longrightarrow> app_unknown_free (snd r)"
  by (auto simp: parse_args_def Let_def split: if_splits)

lemma acquire_loop_unknown_free:
  assumes "\<forall>e. app_unknown_free (h e)" and "app_unknown_free out"
  shows "app_unknown_free (snd (snd (acquire_loop drv dev h i s out)))"
  using assms
proof (induction drv dev h i s out rule: acquire_loop.induct)
  case (1 drv dev h i s out)
  show ?case
  proof (cases "i < 10")
    case False
    with "1.prems" show ?thesis by (subst acquire_loop.simps) simp
  next
    case True
    obtain y s' where g: "GetSickScan drv s = (y, s')" by fastforce
    show ?thesis
    proof (cases y)
      case (Inr vals)
      have "app_unknown_free (snd (snd (acquire_loop drv dev h (Suc i) s'
              (out @ [Call (Ev_GetSickScan dev), Cout_num_values (length vals)]))))"
        using "1.prems" by (intro "1.IH"(2) [OF True g [symmetric] Inr]) simp_all
      then show ?thesis by (subst acquire_loop.simps) (simp add: True g Inr)
    next
      case (Inl e)
      show ?thesis
      proof (cases "is_SickTimeoutException e")
        case to: True
        have "app_unknown_free (snd (snd (acquire_loop drv dev h (Suc i) s'
              (out @ [Call (Ev_GetSickScan dev), Cerr_what (what e)]))))"
          using "1.prems" by (intro "1.IH"(1) [OF True g [symmetric] Inl to]) simp_all
        then show ?thesis by (subst acquire_loop.simps) (simp add: True g Inl to)
      next
        case False
        with "1.prems" show ?thesis
          by (subst acquire_loop.simps) (simp add: True g Inl)
      qed
    qed
  qed
qed

lemma loops_unknown_free:
  "app_unknown_free out \<Longrightarrow> app_unknown_free (snd (snd (simple_app_loop drv dev s out)))"
  "app_unknown_free out \<Longrightarrow> app_unknown_free (snd (snd (set_variant_loop_100 drv dev s out)))"
  "app_unknown_free out \<Longrightarrow> app_unknown_free (snd (snd (set_variant_loop_180 drv dev s out)))"
  unfolding simple_app_loop_def set_variant_loop_100_def set_variant_loop_180_def
  by (intro acquire_loop_unknown_free; simp)+

lemma simple_app_unknown_free: "app_unknown_free (snd (lms_simple_app_main drv argv))"
proof (cases "parse_args argv")
  case (Inl r)
  then show ?thesis using parse_args_quiet [of argv r]
    by (simp add: lms_simple_app_main_def)
next
  case (Inr db)
  obtain dev b where db: "db = (dev, b)" by (cases db)
  with Inr have b: "b \<noteq> SICK_BAUD_UNKNOWN" by (auto dest: parse_args_baud)
  then show ?thesis
    unfolding lms_simple_app_main_def Inr db
    by (auto simp: split_beta bail_def Let_def loops_unknown_free split: option.splits)
qed

lemma set_variant_unknown_free: "app_unknown_free (snd (lms_set_variant_main drv argv))"
proof (cases "parse_args argv")
  case (Inl r)
  then show ?thesis using parse_args_quiet [of argv r]
    by (simp add: lms_set_variant_main_def)
next
  case (Inr db)
  obtain dev b where db: "db = (dev, b)" by (cases db)
  with Inr have b: "b \<noteq> SICK_BAUD_UNKNOWN" by (auto dest: parse_args_baud)
  then show ?thesis
    unfolding lms_set_variant_main_def Inr db
    by (auto simp: split_beta bail_def Let_def loops_unknown_free split: option.splits)
qed


lemma unknown_free_simps [simp]:
  "unknown_free []"
  "unknown_free (e # evs) = (\<not> initializes_unknown e \<and> unknown_free evs)"
  "unknown_free (evs @ evs') = (unknown_free evs \<and> unknown_free evs')"
  by (auto simp: unknown_free_def)

lemma cleanup_unknown_free [simp]:
  "unknown_free (trace (cleanup drv p st)) = unknown_free (trace st)"
  by (auto simp: cleanup_def Let_def split: prod.splits option.splits)

lemma resolve_device_trace [simp]:
  "trace (snd (resolve_device drv n prhs st)) = trace st"
  by (auto simp: resolve_device_def mexErrMsgTxt_def split: sum.splits prod.splits option.splits)

lemma output_args_check_trace [simp]:
  "trace (snd (output_args_check drv b p st)) = trace st"
  by (auto simp: output_args_check_def mexErrMsgTxt_def split: prod.splits option.splits)

lemma initSick_open_unknown_free:
  "unknown_free (trace st) \<Longrightarrow> unknown_free (trace (snd (initSick_open drv p a st)))"
  by (auto simp: initSick_open_def initSick_catch_def mexErrMsgTxt_def Let_def
      split: option.splits prod.splits sum.splits)

lemma initSick_unknown_free:
  "unknown_free (trace st) \<Longrightarrow> unknown_free (trace (snd (initSick drv nlhs prhs st)))"
  by (auto simp: initSick_def mexErrMsgTxt_def initSick_open_unknown_free
      split: option.splits)

lemma clearSick_unknown_free:
  "unknown_free (trace st) \<Longrightarrow> unknown_free (trace (snd (clearSick drv nlhs prhs st)))"
  using resolve_device_trace [of drv 1 prhs st]
  by (auto simp: clearSick_def mexErrMsgTxt_def simp del: resolve_device_trace
      split: prod.splits sum.splits)

lemma printSickInfo_unknown_free:
  "unknown_free (trace st) \<Longrightarrow> unknown_free (trace (snd (printSickInfo drv nlhs prhs st)))"
  using resolve_device_trace [of drv 1 prhs st]
  by (auto simp: printSickInfo_def mexErrMsgTxt_def simp del: resolve_device_trace
      split: prod.splits sum.splits)

lemma setSickVariant_unknown_free:
  "unknown_free (trace st) \<Longrightarrow> unknown_free (trace (snd (setSickVariant drv nlhs prhs st)))"
  using resolve_device_trace [of drv 3 prhs st]
  by (auto simp: setSickVariant_def mexErrMsgTxt_def Let_def simp del: resolve_device_trace
      split: prod.splits sum.splits option.splits)

lemma grabSickVals_unknown_free:
  assumes "unknown_free (trace st)"
  shows "unknown_free (trace (snd (grabSickVals drv nlhs prhs st)))"
proof -
  obtain r0 st0 where c0: "output_args_check drv (nlhs > 2) [] st = (r0, st0)" by fastforce
  obtain r1 st1 where c1: "output_args_check drv (nlhs > 1) [] st0 = (r1, st1)" by fastforce
  obtain x st2 where c2: "resolve_device drv 1 prhs st1 = (x, st2)" by fastforce
  have "trace st0 = trace st" using output_args_check_trace [of drv "nlhs > 2" "[]" st]
    unfolding c0 by simp
  moreover have "trace st1 = trace st0" using output_args_check_trace [of drv "nlhs > 1" "[]" st0]
    unfolding c1 by simp
  moreover have "trace st2 = trace st1" using resolve_device_trace [of drv 1 prhs st1]
    unfolding c2 by simp
  ultimately have t: "unknown_free (trace st0)" "unknown_free (trace st1)" "unknown_free (trace st2)"
    using assms by simp_all
  with assms c0 c1 c2 show ?thesis
    by (auto simp: grabSickVals_def grabSickVals_catch_def mexErrMsgTxt_def Let_def
        split: prod.splits sum.splits)
qed

lemma mexFunction_unknown_free:
  "unknown_free (trace st) \<Longrightarrow> unknown_free (trace (snd (mexFunction drv nlhs prhs st)))"
  by (auto simp: mexFunction_def mexErrMsgTxt_def returning_def split_beta
      initSick_unknown_free clearSick_unknown_free setSickVariant_unknown_free
      grabSickVals_unknown_free printSickInfo_unknown_free
      split: option.splits sum.splits)


lemma cleanup_no_Initialize [simp]:
  "filter is_Initialize (trace (cleanup drv p st)) = filter is_Initialize (trace st)"
  by (auto simp: cleanup_def Let_def split: prod.splits option.splits)

lemma initSick_unknown_baud:
  assumes "IntToSickBaud (int_of_double d) = SICK_BAUD_UNKNOWN" and "nlhs \<le> 1"
    and "length p < ARG_BUFF_LENGTH"
    and "length (sick_lms_map st) \<noteq> MAX_NUM_LMS_DEVICES"
    and "map_find (sick_lms_map st) p \<noteq> Some None"
  shows "initSick drv nlhs [c, MxString p, MxDouble d] st =
           (Inl (MexErrMsgTxt Msg_invalid_baud),
            case map_find (sick_lms_map st) p of
              Some (Some obj) \<Rightarrow>
                cleanup drv p (if IsInitialized drv obj
                               then emit [Ev_mexWarnMsgTxt (Warn_is_initialized p)] st else st)
            | _ \<Rightarrow> st)"
  using assms
  by (auto simp: initSick_def initSick_open_def sickInMap_iff map_index_def mexErrMsgTxt_def
      split: option.splits)

subsection \<open>The acquisition loop\<close>

lemma scan_state_0 [simp]: "scan_state drv s 0 = s"
  by (simp add: scan_state_def)

lemma scan_state_Suc: "scan_state drv s (Suc k) = scan_state drv (snd (GetSickScan drv s)) k"
  using funpow_swap1 [of "\<lambda>x. snd (GetSickScan drv x)" k s] by (simp add: scan_state_def)

lemma scan_result_0: "scan_result drv s 0 = fst (GetSickScan drv s)"
  by (simp add: scan_result_def)

lemma scan_result_Suc: "scan_result drv s (Suc k) = scan_result drv (snd (GetSickScan drv s)) k"
  by (simp add: scan_result_def scan_state_Suc)

lemma polled_0 [simp]: "polled drv dev s 0 = []"
  by (simp add: polled_def)

lemma polled_Suc:
  "polled drv dev s (Suc n) =
     [Call (Ev_GetSickScan dev), scan_line (fst (GetSickScan drv s))]
     @ polled drv dev (snd (GetSickScan drv s)) n"
proof -
  have "[0..<Suc n] = 0 # map Suc [0..<n]" by (simp add: upt_conv_Cons map_Suc_upt del: upt_Suc)
  then show ?thesis
    by (simp add: polled_def scan_result_0 scan_result_Suc comp_def del: upt_Suc)
qed

lemma acquire_loop_all:
  assumes "i + n = 10" and "\<forall>k < n. recoverable (scan_result drv s k)"
  shows "acquire_loop drv dev h i s out = (None, scan_state drv s n, out @ polled drv dev s n)"
  using assms
proof (induction n arbitrary: i s out)
  case 0
  then show ?case by (subst acquire_loop.simps) simp
next
  case (Suc n)
  obtain y s' where g: "GetSickScan drv s = (y, s')" by fastforce
  from Suc.prems(1) have i: "i < 10" "Suc i + n = 10" by simp_all
  from Suc.prems(2) have r0: "recoverable y" using g by (auto simp: scan_result_0)
  have rest: "\<forall>k < n. recoverable (scan_result drv s' k)"
  proof (intro allI impI)
    fix k assume "k < n"
    then have "Suc k < Suc n" by simp
    with Suc.prems(2) have "recoverable (scan_result drv s (Suc k))" by blast
    then show "recoverable (scan_result drv s' k)" using g by (simp add: scan_result_Suc)
  qed
  note IH = Suc.IH [OF i(2) rest]
  show ?case
  proof (cases y)
    case (Inr vals)
    then show ?thesis
      by (subst acquire_loop.simps) (simp add: i g IH polled_Suc scan_state_Suc)
  next
    case (Inl e)
    with r0 show ?thesis
      by (subst acquire_loop.simps) (simp add: i g IH polled_Suc scan_state_Suc)
  qed
qed

lemma acquire_loop_stop:
  assumes "i + n < 10" and "\<forall>k < n. recoverable (scan_result drv s k)"
    and "scan_result drv s n = Inl e" and "\<not> is_SickTimeoutException e"
  shows "acquire_loop drv dev h i s out =
           (Some e, scan_state drv s (Suc n),
            out @ polled drv dev s n @ [Call (Ev_GetSickScan dev)] @ h e)"
  using assms(1-3)
proof (induction n arbitrary: i s out)
  case 0
  obtain y s' where g: "GetSickScan drv s = (y, s')" by fastforce
  with 0 assms(4) show ?case
    by (subst acquire_loop.simps) (simp add: scan_result_0 scan_state_Suc)
next
  case (Suc n)
  obtain y s' where g: "GetSickScan drv s = (y, s')" by fastforce
  from Suc.prems(1) have i: "i < 10" "Suc i + n < 10" by simp_all
  from Suc.prems(2) have r0: "recoverable y" using g by (auto simp: scan_result_0)
  have rest: "\<forall>k < n. recoverable (scan_result drv s' k)"
  proof (intro allI impI)
    fix k assume "k < n"
    then have "Suc k < Suc n" by simp
    with Suc.prems(2) have "recoverable (scan_result drv s (Suc k))" by blast
    then show "recoverable (scan_result drv s' k)" using g by (simp add: scan_result_Suc)
  qed
  from Suc.prems(3) g have last: "scan_result drv s' n = Inl e" by (simp add: scan_result_Suc)
  note IH = Suc.IH [OF i(2) rest last]
  show ?case
  proof (cases y)
    case (Inr vals)
    then show ?thesis
      by (subst acquire_loop.simps) (simp add: i g IH polled_Suc scan_state_Suc [of drv s])
  next
    case (Inl e')
    with r0 show ?thesis
      by (subst acquire_loop.simps) (simp add: i g IH polled_Suc scan_state_Suc [of drv s])
  qed
qed

lemma polled_calls:
  "length (filter (\<lambda>x. x = Call (Ev_GetSickScan dev)) (polled drv dev s n)) = n"
proof (induction n arbitrary: s)
  case 0
  then show ?case by simp
next
  case (Suc n)
  have "scan_line r \<noteq> Call ev" for r ev by (cases r) simp_all
  with Suc show ?case by (simp add: polled_Suc)
qed


lemma sim_GetSickScan_state:
  "snd (GetSickScan sim_driver s) = s\<lparr>sim_scans := Suc (sim_scans s)\<rparr>"
  by (simp add: sim_driver_def)

lemma sim_scan_state: "scan_state sim_driver s k = s\<lparr>sim_scans := sim_scans s + k\<rparr>"
  by (induction k arbitrary: s) (simp_all add: scan_state_Suc sim_GetSickScan_state)

lemma sim_scan_result:
  "scan_result sim_driver s k =
     (if sim_path s = ''/dev/ttyUSB3'' \<and> sim_scans s + k = 4
      then Inl (SickIOException ''read failed'')
      else if sim_scans s + k = 2 \<or> sim_scans s + k = 6
      then Inl (SickTimeoutException ''timeout'')
      else Inr (replicate (Suc (nat \<lfloor>sim_angle s / sim_resolution s\<rfloor>)) 1000))"
  by (simp add: scan_result_def sim_scan_state)
    (simp add: sim_driver_def sim_breaks_def sim_times_out_def sim_values_def)

subsection \<open>Teardown\<close>

lemma teardown_events_filters:
  "filter is_delete (teardown_events drv p obj) = [Ev_delete p]"
  "filter is_Uninitialize (teardown_events drv p obj)
     = (if IsInitialized drv obj then [Ev_Uninitialize p] else [])"
  "length (filter (\<lambda>e. e = Ev_mexWarnMsgTxt Warn_exception_while_erasing)
             (teardown_events drv p obj))
     = (if IsInitialized drv obj \<and> fst (Uninitialize drv obj) \<noteq> None then 1 else 0)"
  by (simp_all add: teardown_events_def)

lemma exit_events_filters:
  "filter is_delete (concat (map (\<lambda>e. teardown_events drv (fst e) (the (snd e))) m))
     = map (\<lambda>e. Ev_delete (fst e)) m"
  "filter is_Uninitialize (concat (map (\<lambda>e. teardown_events drv (fst e) (the (snd e))) m))
     = map (\<lambda>e. Ev_Uninitialize (fst e)) (filter (\<lambda>e. IsInitialized drv (the (snd e))) m)"
  "length (filter (\<lambda>e. e = Ev_mexWarnMsgTxt Warn_exception_while_erasing)
             (concat (map (\<lambda>e. teardown_events drv (fst e) (the (snd e))) m)))
     = length (filter (\<lambda>e. IsInitialized drv (the (snd e))
                            \<and> fst (Uninitialize drv (the (snd e))) \<noteq> None) m)"
  by (induction m) (simp_all add: teardown_events_filters)

lemma cleanup_trace:
  "map_find (sick_lms_map st) p = Some (Some obj) \<Longrightarrow>
   trace (cleanup drv p st) = trace st @ teardown_events drv p obj"
  by (simp add: cleanup_found)

lemma initSick_open_trace:
  "\<exists>evs. trace (snd (initSick_open drv p b st)) = trace st @ evs
         \<and> (evs = [] \<or> (\<exists>evs'. evs = Ev_new p # evs'))"
  by (auto simp: initSick_open_def initSick_catch_def mexErrMsgTxt_def Let_def cleanup_trace
      split: option.splits prod.splits sum.splits)

lemma sim_keeps_device_path: "keeps_device_path sim_driver"
  by (simp add: keeps_device_path_def sim_driver_def)

subsection \<open>The \<^verbatim>\<open>variant\<close> command on an LMS Fast\<close>

text \<open>
  Claim C1. A \<^verbatim>\<open>variant\<close> command whose target, given by path or found as the only
  device, is an initialized session of an LMS Fast fails with the message that this Sick
  model does not support the command (or, with an output argument, with the message about output
  arguments) and leaves the state as it was: the trace gains no event, so
  \<^verbatim>\<open>SetSickVariant\<close> is not called and nothing is sent. The two arguments \<open>a\<close> and \<open>r\<close>
  are arbitrary, also of the wrong type: they are not read.
\<close>

theorem variant_on_lms_fast_rejected:
  assumes "map_find (sick_lms_map st) p = Some (Some obj)"
    and "IsInitialized drv obj" and "IsSickLMSFast drv obj"
    and "(prhs = [c, a, r, MxString p] \<and> length p < ARG_BUFF_LENGTH)
         \<or> (prhs = [c, a, r] \<and> sick_lms_map st = [(p, Some obj)] \<and> GetSickDevicePath drv obj = p)"
  shows "setSickVariant drv nlhs prhs st =
           (Inl (MexErrMsgTxt (if nlhs > 0 then Msg_output_args else Msg_variant_lms_fast)), st)"
  using assms
  by (auto simp: setSickVariant_def resolve_device_def mexErrMsgTxt_def sickInMap_def
      map_index_def map_find_def)

theorem variant_on_lms_fast_rejected_witness:
  "setSickVariant sim_driver 0 [MxString ''variant'', MxString ''wide'', MxDouble 7]
     \<lparr>sick_lms_map = [(''/dev/ttyUSB1'', Some (sim_session ''/dev/ttyUSB1''))], trace = []\<rparr>
   = (Inl (MexErrMsgTxt Msg_variant_lms_fast),
      \<lparr>sick_lms_map = [(''/dev/ttyUSB1'', Some (sim_session ''/dev/ttyUSB1''))], trace = []\<rparr>)"
  using variant_on_lms_fast_rejected [of
      "\<lparr>sick_lms_map = [(''/dev/ttyUSB1'', Some (sim_session ''/dev/ttyUSB1''))], trace = []\<rparr>"
      "''/dev/ttyUSB1''" "sim_session ''/dev/ttyUSB1''" sim_driver
      "[MxString ''variant'', MxString ''wide'', MxDouble 7]"
      "MxString ''variant''" "MxString ''wide''" "MxDouble 7" 0]
  by (simp add: map_find_def sim_driver_def sim_session_def)

subsection \<open>The limit on the number of devices\<close>

text \<open>
  Claim C3. An \<^verbatim>\<open>init\<close> command that finds four devices in the map fails and leaves the
  state as it was: no object is constructed and no entry touched. With three input
  arguments, at most one output argument and a readable path the message is the one about
  the maximum number of devices; with malformed arguments the check of the arguments fails
  first. No state the bridge can reach holds more than four entries.
\<close>

theorem init_at_capacity_fails:
  "(length (sick_lms_map st) = MAX_NUM_LMS_DEVICES \<longrightarrow>
      initSick drv nlhs prhs st =
        (Inl (MexErrMsgTxt
               (if length prhs \<noteq> 3 then Msg_init_input_args
                else if nlhs > 1 then Msg_output_args
                else if mxGetString (prhs ! 1) ARG_BUFF_LENGTH = None
                then Msg_could_not_read_argument
                else Msg_max_devices)), st))
   \<and> (reachable drv st' \<longrightarrow> length (sick_lms_map st') \<le> 4)"
  using initSick_full [of st drv nlhs prhs] reachable_invariants [of drv st']
  by (auto simp: size_inv_def MAX_NUM_LMS_DEVICES_def)

theorem init_at_capacity_fails_witness:
  "initSick sim_driver 1 [MxString ''init'', MxString ''/dev/ttyUSB4'', MxDouble 38400] sim_four
     = (Inl (MexErrMsgTxt Msg_max_devices), sim_four)
   \<and> length (sick_lms_map sim_one) \<le> 4"
  using init_at_capacity_fails [of sim_four sim_driver 1
      "[MxString ''init'', MxString ''/dev/ttyUSB4'', MxDouble 38400]" sim_one]
    sim_one_reachable
  by (simp add: sim_four_def MAX_NUM_LMS_DEVICES_def ARG_BUFF_LENGTH_def)

text \<open>
  Claim C10. When \<^verbatim>\<open>init\<close> names a path that is in the map, the test of the number of
  devices comes before the cleanup of the previous instance: with four devices the command
  fails with the message about the maximum and nothing is torn down, although the cleanup
  would have left three entries. The test is an equality: with any other number of
  entries, a larger one included, the command does not fail with that message and goes on
  to the cleanup and to opening the device.
\<close>

theorem init_capacity_guard_precedes_teardown:
  assumes "prhs = [c, MxString p, b]" and "length p < ARG_BUFF_LENGTH" and "nlhs \<le> 1"
    and "map_ok (sick_lms_map st)" and "map_find (sick_lms_map st) p = Some (Some obj)"
  shows "(length (sick_lms_map st) = MAX_NUM_LMS_DEVICES \<longrightarrow>
            initSick drv nlhs prhs st = (Inl (MexErrMsgTxt Msg_max_devices), st)
            \<and> length (sick_lms_map (cleanup drv p st)) = MAX_NUM_LMS_DEVICES - 1)
       \<and> (length (sick_lms_map st) \<noteq> MAX_NUM_LMS_DEVICES \<longrightarrow>
            fst (initSick drv nlhs prhs st) \<noteq> Inl (MexErrMsgTxt Msg_max_devices)
            \<and> initSick drv nlhs prhs st =
                initSick_open drv p b
                  (cleanup drv p
                     (if IsInitialized drv obj
                      then emit [Ev_mexWarnMsgTxt (Warn_is_initialized p)] st else st)))"
proof (intro conjI impI)
  assume full: "length (sick_lms_map st) = MAX_NUM_LMS_DEVICES"
  from initSick_full [OF full, of drv nlhs prhs] assms(1-3)
  show "initSick drv nlhs prhs st = (Inl (MexErrMsgTxt Msg_max_devices), st)" by simp
  from assms(4,5) have "Suc (length (map_erase p (sick_lms_map st))) = length (sick_lms_map st)"
    by (intro length_map_erase) (simp_all add: map_ok_def map_find_def)
  with full show "length (sick_lms_map (cleanup drv p st)) = MAX_NUM_LMS_DEVICES - 1"
    by (simp add: cleanup_map [OF assms(5)])
next
  assume "length (sick_lms_map st) \<noteq> MAX_NUM_LMS_DEVICES"
  then show "fst (initSick drv nlhs prhs st) \<noteq> Inl (MexErrMsgTxt Msg_max_devices)"
    by (rule initSick_not_full)
next
  assume "length (sick_lms_map st) \<noteq> MAX_NUM_LMS_DEVICES"
  with assms(1-3,5) show "initSick drv nlhs prhs st =
                initSick_open drv p b
                  (cleanup drv p
                     (if IsInitialized drv obj
                      then emit [Ev_mexWarnMsgTxt (Warn_is_initialized p)] st else st))"
    by (simp add: initSick_def sickInMap_iff map_index_found)
qed


theorem init_capacity_guard_precedes_teardown_witness:
  "initSick sim_driver 1 [MxString ''init'', MxString ''/dev/ttyUSB0'', MxDouble 38400] sim_four
     = (Inl (MexErrMsgTxt Msg_max_devices), sim_four)
   \<and> length (sick_lms_map (cleanup sim_driver ''/dev/ttyUSB0'' sim_four)) = 3
   \<and> fst (initSick sim_driver 1 [MxString ''init'', MxString ''/dev/ttyUSB0'', MxDouble 38400]
            sim_five) \<noteq> Inl (MexErrMsgTxt Msg_max_devices)"
proof -
  have l: "length ''/dev/ttyUSB0'' < ARG_BUFF_LENGTH" by (simp add: ARG_BUFF_LENGTH_def)
  have ok4: "map_ok (sick_lms_map sim_four)" and ok5: "map_ok (sick_lms_map sim_five)"
    by (simp_all add: sim_four_def sim_five_def map_ok_def)
  have f4: "map_find (sick_lms_map sim_four) ''/dev/ttyUSB0''
              = Some (Some (sim_session ''/dev/ttyUSB0''))"
    and f5: "map_find (sick_lms_map sim_five) ''/dev/ttyUSB0''
              = Some (Some (sim_session ''/dev/ttyUSB0''))"
    by (simp_all add: sim_four_def sim_five_def map_find_def)
  have n4: "length (sick_lms_map sim_four) = MAX_NUM_LMS_DEVICES"
    and n5: "length (sick_lms_map sim_five) \<noteq> MAX_NUM_LMS_DEVICES"
    by (simp_all add: sim_four_def sim_five_def MAX_NUM_LMS_DEVICES_def)
  from init_capacity_guard_precedes_teardown [OF refl l _ ok4 f4, where nlhs = 1
      and c = "MxString ''init''" and b = "MxDouble 38400" and drv = sim_driver] n4
  have "initSick sim_driver 1 [MxString ''init'', MxString ''/dev/ttyUSB0'', MxDouble 38400]
          sim_four = (Inl (MexErrMsgTxt Msg_max_devices), sim_four)
        \<and> length (sick_lms_map (cleanup sim_driver ''/dev/ttyUSB0'' sim_four)) = 3"
    by (simp add: MAX_NUM_LMS_DEVICES_def)
  moreover
  from init_capacity_guard_precedes_teardown [OF refl l _ ok5 f5, where nlhs = 1
      and c = "MxString ''init''" and b = "MxDouble 38400" and drv = sim_driver] n5
  have "fst (initSick sim_driver 1 [MxString ''init'', MxString ''/dev/ttyUSB0'', MxDouble 38400]
              sim_five) \<noteq> Inl (MexErrMsgTxt Msg_max_devices)"
    by blast
  ultimately show ?thesis by simp
qed

subsection \<open>The device a command works on\<close>

text \<open>
  Claim C7. For the commands \<^verbatim>\<open>clear\<close>, \<^verbatim>\<open>variant\<close>, \<^verbatim>\<open>grab\<close> and \<^verbatim>\<open>info\<close>:
  when the map holds exactly one session, the command without a device path finds that
  session and does exactly what the command with the path of that session does; when the
  map holds more than one session, the command without a path fails with the message that
  asks for a path; and a path that is not in the map is rejected. With an output argument
  \<^verbatim>\<open>clear\<close>, \<^verbatim>\<open>variant\<close> and \<^verbatim>\<open>info\<close> fail before, on the number of output
  arguments; the error cases of \<^verbatim>\<open>grab\<close> are stated for at most one output argument.
\<close>

theorem default_device_resolution:
  "(sick_lms_map st = [(p, Some obj)] \<and> GetSickDevicePath drv obj = p
      \<and> length p < ARG_BUFF_LENGTH \<longrightarrow>
      (IsInitialized drv obj \<longrightarrow> resolve_device drv 1 [c] st = (Inr (p, obj), st)
                               \<and> resolve_device drv 3 [c, a, r] st = (Inr (p, obj), st))
      \<and> clearSick drv nlhs [c] st = clearSick drv nlhs [c, MxString p] st
      \<and> setSickVariant drv nlhs [c, a, r] st = setSickVariant drv nlhs [c, a, r, MxString p] st
      \<and> grabSickVals drv nlhs [c] st = grabSickVals drv nlhs [c, MxString p] st
      \<and> printSickInfo drv nlhs [c] st = printSickInfo drv nlhs [c, MxString p] st)
   \<and> (length (sick_lms_map st) > 1 \<longrightarrow>
      clearSick drv nlhs [c] st
        = (Inl (MexErrMsgTxt (if nlhs > 0 then Msg_output_args else Msg_multiple_devices)), st)
      \<and> setSickVariant drv nlhs [c, a, r] st
        = (Inl (MexErrMsgTxt (if nlhs > 0 then Msg_output_args else Msg_multiple_devices)), st)
      \<and> (nlhs \<le> 1 \<longrightarrow>
           grabSickVals drv nlhs [c] st = (Inl (MexErrMsgTxt Msg_multiple_devices), st))
      \<and> printSickInfo drv nlhs [c] st
        = (Inl (MexErrMsgTxt (if nlhs > 0 then Msg_info_output_args
                              else Msg_multiple_devices)), st))
   \<and> (map_find (sick_lms_map st) q = None \<and> length q < ARG_BUFF_LENGTH \<and> sick_lms_map st \<noteq> []
      \<longrightarrow>
      clearSick drv nlhs [c, MxString q] st
        = (Inl (MexErrMsgTxt (if nlhs > 0 then Msg_output_args else Msg_no_device_for_path)), st)
      \<and> setSickVariant drv nlhs [c, a, r, MxString q] st
        = (Inl (MexErrMsgTxt (if nlhs > 0 then Msg_output_args else Msg_no_device_for_path)), st)
      \<and> (nlhs \<le> 1 \<longrightarrow>
           grabSickVals drv nlhs [c, MxString q] st
             = (Inl (MexErrMsgTxt Msg_no_device_for_path), st))
      \<and> printSickInfo drv nlhs [c, MxString q] st
        = (Inl (MexErrMsgTxt (if nlhs > 0 then Msg_info_output_args
                              else Msg_no_device_for_path)), st))"
proof (intro conjI impI)
  assume one: "sick_lms_map st = [(p, Some obj)] \<and> GetSickDevicePath drv obj = p
      \<and> length p < ARG_BUFF_LENGTH"
  then have m: "sick_lms_map st = [(p, Some obj)]" and g: "GetSickDevicePath drv obj = p"
    and l: "length p < ARG_BUFF_LENGTH" by simp_all
  have r1: "resolve_device drv (Suc 0) [c] st = resolve_device drv (Suc 0) [c, MxString p] st"
    using resolve_same [OF m g l, of "[c]" 1] by simp
  have r3: "resolve_device drv 3 [c, a, r] st = resolve_device drv 3 [c, a, r, MxString p] st"
    using resolve_same [OF m g l, of "[c, a, r]" 3] by simp
  show "clearSick drv nlhs [c] st = clearSick drv nlhs [c, MxString p] st"
    by (simp add: clearSick_def r1)
  have a1: "arg_double [c, a, r] 1 = arg_double [c, a, r, MxString p] 1"
    and a2: "arg_double [c, a, r] 2 = arg_double [c, a, r, MxString p] 2"
    by (simp_all add: arg_double_def)
  show "setSickVariant drv nlhs [c, a, r] st = setSickVariant drv nlhs [c, a, r, MxString p] st"
    unfolding setSickVariant_def r3 a1 a2 by simp
  show "grabSickVals drv nlhs [c] st = grabSickVals drv nlhs [c, MxString p] st"
    using r1 by (intro grabSickVals_resolve_cong) simp_all
  show "printSickInfo drv nlhs [c] st = printSickInfo drv nlhs [c, MxString p] st"
    by (simp add: printSickInfo_def r1)
  assume i: "IsInitialized drv obj"
  show "resolve_device drv 1 [c] st = (Inr (p, obj), st)"
    using resolve_default [OF m g, of "[c]" 1] i by simp
  show "resolve_device drv 3 [c, a, r] st = (Inr (p, obj), st)"
    using resolve_default [OF m g, of "[c, a, r]" 3] i by simp
next
  assume many: "length (sick_lms_map st) > 1"
  show "clearSick drv nlhs [c] st
        = (Inl (MexErrMsgTxt (if nlhs > 0 then Msg_output_args else Msg_multiple_devices)), st)"
    using resolve_multiple [OF many, of "[c]" 1 drv]
    by (simp add: clearSick_def mexErrMsgTxt_def)
  show "setSickVariant drv nlhs [c, a, r] st
        = (Inl (MexErrMsgTxt (if nlhs > 0 then Msg_output_args else Msg_multiple_devices)), st)"
    using resolve_multiple [OF many, of "[c, a, r]" 3 drv]
    by (simp add: setSickVariant_def mexErrMsgTxt_def)
  show "printSickInfo drv nlhs [c] st
        = (Inl (MexErrMsgTxt (if nlhs > 0 then Msg_info_output_args
                              else Msg_multiple_devices)), st)"
    using resolve_multiple [OF many, of "[c]" 1 drv]
    by (simp add: printSickInfo_def mexErrMsgTxt_def)
  assume "nlhs \<le> 1"
  then show "grabSickVals drv nlhs [c] st = (Inl (MexErrMsgTxt Msg_multiple_devices), st)"
    using resolve_multiple [OF many, of "[c]" 1 drv]
    by (simp add: grabSickVals_def output_args_check_def)
next
  assume "map_find (sick_lms_map st) q = None \<and> length q < ARG_BUFF_LENGTH \<and> sick_lms_map st \<noteq> []"
  then have n: "map_find (sick_lms_map st) q = None" and l: "length q < ARG_BUFF_LENGTH"
    and ne: "sick_lms_map st \<noteq> []" by simp_all
  show "clearSick drv nlhs [c, MxString q] st
        = (Inl (MexErrMsgTxt (if nlhs > 0 then Msg_output_args else Msg_no_device_for_path)), st)"
    using resolve_unknown [OF n _ _ l, of "[c, MxString q]" 1 drv] ne
    by (simp add: clearSick_def mexErrMsgTxt_def)
  show "setSickVariant drv nlhs [c, a, r, MxString q] st
        = (Inl (MexErrMsgTxt (if nlhs > 0 then Msg_output_args else Msg_no_device_for_path)), st)"
    using resolve_unknown [OF n _ _ l, of "[c, a, r, MxString q]" 3 drv] ne
    by (simp add: setSickVariant_def mexErrMsgTxt_def)
  show "printSickInfo drv nlhs [c, MxString q] st
        = (Inl (MexErrMsgTxt (if nlhs > 0 then Msg_info_output_args
                              else Msg_no_device_for_path)), st)"
    using resolve_unknown [OF n _ _ l, of "[c, MxString q]" 1 drv] ne
    by (simp add: printSickInfo_def mexErrMsgTxt_def)
  assume "nlhs \<le> 1"
  then show "grabSickVals drv nlhs [c, MxString q] st
             = (Inl (MexErrMsgTxt Msg_no_device_for_path), st)"
    using resolve_unknown [OF n _ _ l, of "[c, MxString q]" 1 drv] ne
    by (simp add: grabSickVals_def output_args_check_def)
qed

theorem default_device_resolution_witness:
  "resolve_device sim_driver 1 [MxString ''clear''] sim_one
     = (Inr (''/dev/ttyUSB0'', sim_session ''/dev/ttyUSB0''), sim_one)
   \<and> clearSick sim_driver 0 [MxString ''clear''] sim_one
     = clearSick sim_driver 0 [MxString ''clear'', MxString ''/dev/ttyUSB0''] sim_one
   \<and> printSickInfo sim_driver 0 [MxString ''info''] sim_four
     = (Inl (MexErrMsgTxt Msg_multiple_devices), sim_four)
   \<and> grabSickVals sim_driver 1 [MxString ''grab'', MxString ''/dev/ttyS0''] sim_one
     = (Inl (MexErrMsgTxt Msg_no_device_for_path), sim_one)"
  using default_device_resolution [of sim_one "''/dev/ttyUSB0''" "sim_session ''/dev/ttyUSB0''"
      sim_driver "MxString ''clear''" "MxDouble 100" "MxDouble 1" 0 "''/dev/ttyS0''"]
    default_device_resolution [of sim_four "''/dev/ttyUSB0''" "sim_session ''/dev/ttyUSB0''"
      sim_driver "MxString ''info''" "MxDouble 100" "MxDouble 1" 0 "''/dev/ttyS0''"]
    default_device_resolution [of sim_one "''/dev/ttyUSB0''" "sim_session ''/dev/ttyUSB0''"
      sim_driver "MxString ''grab''" "MxDouble 100" "MxDouble 1" 1 "''/dev/ttyS0''"]
  by (simp add: sim_one_def sim_four_def sim_driver_def sim_session_def map_find_def
      ARG_BUFF_LENGTH_def)

subsection \<open>The output arguments of \<^verbatim>\<open>grab\<close>\<close>

text \<open>
  Claim C9 does not hold of the code. With two output arguments, \<^verbatim>\<open>grab\<close> evaluates
  \<^verbatim>\<open>sick_lms_map[sick_dev_path]->IsSickLMSFast()\<close> at its entry, while the path is
  still the empty string and before the map is tested for a device: \<^verbatim>\<open>operator[]\<close>
  inserts a null pointer under the empty path and the call goes through it, with one
  device in the map and with none. The command \<^verbatim>\<open>clear\<close>, like \<^verbatim>\<open>variant\<close> and
  \<^verbatim>\<open>info\<close>, checks the number of output arguments without a look at the map.
\<close>

theorem grab_two_outputs_null_dereference:
  "grabSickVals sim_driver 2 [MxString ''grab''] sim_one
     = (Inl Null_dereference,
        sim_one\<lparr>sick_lms_map := ([], None) # sick_lms_map sim_one\<rparr>)
   \<and> grabSickVals sim_driver 2 [MxString ''grab''] mex_start
     = (Inl Null_dereference, mex_start\<lparr>sick_lms_map := [([], None)]\<rparr>)
   \<and> clearSick sim_driver 2 [MxString ''clear''] mex_start
     = (Inl (MexErrMsgTxt Msg_output_args), mex_start)"
  by (simp add: grabSickVals_def clearSick_def output_args_check_def map_index_def map_find_def
      mexErrMsgTxt_def sim_one_def mex_start_def)

subsection \<open>The bearings \<^verbatim>\<open>grab\<close> reports\<close>

text \<open>
  Claim C8. When \<^verbatim>\<open>grab\<close> returns a struct, the command has scanned the object \<open>obj\<close>
  of the target path once, the object \<open>obj'\<close> the scan left is the one in the map, the
  fields \<open>fov\<close> and \<open>res\<close> of the struct are the scan angle and the scan resolution
  read from \<open>obj'\<close>, the bearings are as many as the primary values \<open>pri\<close> of the scan,
  and the bearing of index \<open>i\<close> is \<open>(180 - fov) / 2 + i * res\<close>. The doubles of the source
  are real numbers here; for the angles 100 and 180, the resolutions 0.25, 0.5 and 1, and the
  at most a few hundred indices of a scan, every intermediate value is a multiple of 0.25
  that a double holds exactly.
\<close>

theorem grab_bearings:
  assumes "grabSickVals drv nlhs prhs st = (Inr out, st')"
  shows "\<exists>p obj obj' pri sec.
           map_find (sick_lms_map st) p = Some (Some obj)
           \<and> map_find (sick_lms_map st') p = Some (Some obj')
           \<and> (if IsSickLMSFast drv obj then GetSickScan_reflect drv obj = (Inr (pri, sec), obj')
               else GetSickScan drv obj = (Inr pri, obj'))
           \<and> GetSickScanAngle drv obj' = Inr (grab_fov out)
           \<and> GetSickScanResolution drv obj' = Inr (grab_res out)
           \<and> length (grab_bearing out) = length pri
           \<and> (\<forall>i < length pri.
                 grab_bearing out ! i = (180 - grab_fov out) / 2 + real i * grab_res out)"
proof -
  from grabSickVals_returns [OF assms] obtain p obj obj' pri sec mode where
    f: "map_find (sick_lms_map st) p = Some (Some obj)"
    and scan: "if IsSickLMSFast drv obj then GetSickScan_reflect drv obj = (Inr (pri, sec), obj')
               else GetSickScan drv obj = (Inr pri, obj') \<and> sec = []"
    and res: "GetSickScanResolution drv obj' = Inr (grab_res out)"
    and fov: "GetSickScanAngle drv obj' = Inr (grab_fov out)"
    and out: "out = grab_result (IsSickLMSFast drv obj') pri sec mode (grab_res out) (grab_fov out)"
    and st': "st' = set_object p obj' (emit [Ev_GetSickScan p] st)"
    by blast
  have b: "grab_bearing out = map (\<lambda>i. (180 - grab_fov out) / 2 + real i * grab_res out)
                                 [0..<length pri]"
    by (subst out) (simp add: grab_result_def Let_def)
  have "map_find (sick_lms_map st') p = Some (Some obj')" by (simp add: st')
  moreover have "if IsSickLMSFast drv obj then GetSickScan_reflect drv obj = (Inr (pri, sec), obj')
               else GetSickScan drv obj = (Inr pri, obj')"
    using scan by (simp split: if_splits)
  moreover have "length (grab_bearing out) = length pri" by (simp add: b)
  moreover have "\<forall>i < length pri.
                 grab_bearing out ! i = (180 - grab_fov out) / 2 + real i * grab_res out"
    by (simp add: b)
  ultimately show ?thesis using f res fov by blast
qed

theorem grab_bearings_witness:
  "grab_bearing (grab_result False (replicate 361 1000) [] SICK_MS_MODE_RANGE (1/2) 180) ! 360
     = 180"
proof -
  from grab_bearings [OF sim_grab_run] obtain pri where
    "GetSickScan sim_driver (sim_session ''/dev/ttyUSB0'') = (Inr pri, sim_scan)"
    and b: "\<forall>i < length pri.
       grab_bearing (grab_result False (replicate 361 1000) [] SICK_MS_MODE_RANGE (1/2) 180) ! i
       = (180 - grab_fov (grab_result False (replicate 361 1000) [] SICK_MS_MODE_RANGE (1/2) 180)) / 2
         + real i * grab_res (grab_result False (replicate 361 1000) [] SICK_MS_MODE_RANGE (1/2) 180)"
    by (auto simp: sim_one_def map_find_def sim_driver_def sim_session_def sim_breaks_def
        sim_times_out_def split: if_splits)
  then have "length pri = 361"
    by (auto simp: sim_driver_def sim_session_def sim_values_def sim_times_out_def
        sim_breaks_def)
  with b show ?thesis by (simp add: grab_result_def)
qed


subsection \<open>An unknown baud rate\<close>

text \<open>
  Claim C5. The entry points that take a baud rate are the two example programs (a string,
  converted by \<^verbatim>\<open>StringToSickBaud\<close>) and \<^verbatim>\<open>init\<close> of the bridge (a number, converted
  by \<^verbatim>\<open>IntToSickBaud\<close>). When the conversion gives \<^verbatim>\<open>SICK_BAUD_UNKNOWN\<close>, each
  program ends with exit code -1 after the message about the baud value and calls nothing on
  the driver, and \<^verbatim>\<open>init\<close> (with well-formed arguments, room in the map and no null
  entry under the path) fails with the message about the baud rate and adds no call of
  \<^verbatim>\<open>Initialize\<close> to the trace. Whatever the arguments, no program and no command of
  the bridge calls \<^verbatim>\<open>Initialize\<close> with the sentinel. The conversions give the sentinel
  exactly outside 9600, 19200, 38400 and 500000.
\<close>

theorem unknown_baud_rejected:
  "(StringToSickBaud baud_str = SICK_BAUD_UNKNOWN \<longrightarrow>
      lms_simple_app_main drv [prog, device_str, baud_str] = (- 1, [Cerr_invalid_baud])
      \<and> lms_set_variant_main drv [prog, device_str, baud_str] = (- 1, [Cerr_invalid_baud]))
   \<and> (IntToSickBaud (int_of_double d) = SICK_BAUD_UNKNOWN \<and> nlhs \<le> 1
        \<and> length p < ARG_BUFF_LENGTH \<and> length (sick_lms_map st) \<noteq> MAX_NUM_LMS_DEVICES
        \<and> map_find (sick_lms_map st) p \<noteq> Some None \<longrightarrow>
      fst (initSick drv nlhs [c, MxString p, MxDouble d] st) = Inl (MexErrMsgTxt Msg_invalid_baud)
      \<and> filter is_Initialize (trace (snd (initSick drv nlhs [c, MxString p, MxDouble d] st)))
          = filter is_Initialize (trace st))
   \<and> app_unknown_free (snd (lms_simple_app_main drv argv))
   \<and> app_unknown_free (snd (lms_set_variant_main drv argv))
   \<and> (unknown_free (trace st) \<longrightarrow> unknown_free (trace (snd (mexFunction drv nlhs prhs st))))
   \<and> (StringToSickBaud baud_str = SICK_BAUD_UNKNOWN)
        = (baud_str \<notin> {''9600'', ''19200'', ''38400'', ''500000''})
   \<and> (IntToSickBaud n = SICK_BAUD_UNKNOWN) = (n \<notin> {9600, 19200, 38400, 500000})"
proof (intro conjI impI)
  assume u: "StringToSickBaud baud_str = SICK_BAUD_UNKNOWN"
  show "lms_simple_app_main drv [prog, device_str, baud_str] = (- 1, [Cerr_invalid_baud])"
    by (simp add: lms_simple_app_main_def parse_args_unknown [OF u])
  show "lms_set_variant_main drv [prog, device_str, baud_str] = (- 1, [Cerr_invalid_baud])"
    by (simp add: lms_set_variant_main_def parse_args_unknown [OF u])
next
  assume a: "IntToSickBaud (int_of_double d) = SICK_BAUD_UNKNOWN \<and> nlhs \<le> 1
        \<and> length p < ARG_BUFF_LENGTH \<and> length (sick_lms_map st) \<noteq> MAX_NUM_LMS_DEVICES
        \<and> map_find (sick_lms_map st) p \<noteq> Some None"
  then have r: "initSick drv nlhs [c, MxString p, MxDouble d] st =
           (Inl (MexErrMsgTxt Msg_invalid_baud),
            case map_find (sick_lms_map st) p of
              Some (Some obj) \<Rightarrow>
                cleanup drv p (if IsInitialized drv obj
                               then emit [Ev_mexWarnMsgTxt (Warn_is_initialized p)] st else st)
            | _ \<Rightarrow> st)"
    by (intro initSick_unknown_baud) simp_all
  show "fst (initSick drv nlhs [c, MxString p, MxDouble d] st) = Inl (MexErrMsgTxt Msg_invalid_baud)"
    by (simp add: r)
  show "filter is_Initialize (trace (snd (initSick drv nlhs [c, MxString p, MxDouble d] st)))
          = filter is_Initialize (trace st)"
    by (simp add: r split: option.splits)
next
  show "app_unknown_free (snd (lms_simple_app_main drv argv))" by (rule simple_app_unknown_free)
  show "app_unknown_free (snd (lms_set_variant_main drv argv))" by (rule set_variant_unknown_free)
next
  assume "unknown_free (trace st)"
  then show "unknown_free (trace (snd (mexFunction drv nlhs prhs st)))"
    by (rule mexFunction_unknown_free)
next
  show "(StringToSickBaud baud_str = SICK_BAUD_UNKNOWN)
        = (baud_str \<notin> {''9600'', ''19200'', ''38400'', ''500000''})"
    by (rule StringToSickBaud_unknown)
  show "(IntToSickBaud n = SICK_BAUD_UNKNOWN) = (n \<notin> {9600, 19200, 38400, 500000})"
    by (rule IntToSickBaud_unknown)
qed

theorem unknown_baud_rejected_witness:
  "lms_simple_app_main sim_driver [''lms_simple_app'', ''/dev/ttyUSB0'', ''115200'']
     = (- 1, [Cerr_invalid_baud])
   \<and> lms_set_variant_main sim_driver [''lms_set_variant'', ''/dev/ttyUSB0'', ''115200'']
     = (- 1, [Cerr_invalid_baud])
   \<and> fst (initSick sim_driver 1 [MxString ''init'', MxString ''/dev/ttyUSB3'', MxDouble 115200]
            sim_one) = Inl (MexErrMsgTxt Msg_invalid_baud)
   \<and> unknown_free (trace (snd (mexFunction sim_driver 1
        [MxString ''init'', MxString ''/dev/ttyUSB3'', MxDouble 115200] sim_one)))"
  using unknown_baud_rejected [of "''115200''" sim_driver "''lms_simple_app''" "''/dev/ttyUSB0''"
      115200 1 "''/dev/ttyUSB3''" sim_one "MxString ''init''" "[]"
      "[MxString ''init'', MxString ''/dev/ttyUSB3'', MxDouble 115200]" 0]
    unknown_baud_rejected [of "''115200''" sim_driver "''lms_set_variant''" "''/dev/ttyUSB0''"
      115200 1 "''/dev/ttyUSB3''" sim_one "MxString ''init''" "[]"
      "[MxString ''init'', MxString ''/dev/ttyUSB3'', MxDouble 115200]" 0]
  by (simp add: StringToSickBaud_def IntToSickBaud_def int_of_double_def ARG_BUFF_LENGTH_def
      MAX_NUM_LMS_DEVICES_def sim_one_def map_find_def)

subsection \<open>Timeouts in the acquisition loops\<close>

text \<open>
  Claim C6. Each of the three acquisition loops of the example programs calls
  \<^verbatim>\<open>GetSickScan\<close> on the same object ten times when every call returns a scan or throws
  a timeout: it writes the number of values or the text of the timeout and goes on with the
  object as the call left it, and ends without an exception. When call number \<open>n\<close> is the
  first to throw another exception, the loop ends there, after \<open>n + 1\<close> calls, with that
  exception; the first loop of \<^verbatim>\<open>lms_set_variant\<close> writes the text of a
  \<^verbatim>\<open>SickException\<close> before.
\<close>

theorem acquisition_loops:
  "((\<forall>k < 10. recoverable (scan_result drv s k)) \<longrightarrow>
      simple_app_loop drv dev s out = (None, scan_state drv s 10, out @ polled drv dev s 10)
      \<and> set_variant_loop_100 drv dev s out
          = (None, scan_state drv s 10, out @ polled drv dev s 10)
      \<and> set_variant_loop_180 drv dev s out
          = (None, scan_state drv s 10, out @ polled drv dev s 10))
   \<and> (n < 10 \<and> (\<forall>k < n. recoverable (scan_result drv s k))
        \<and> scan_result drv s n = Inl e \<and> \<not> is_SickTimeoutException e \<longrightarrow>
      simple_app_loop drv dev s out
        = (Some e, scan_state drv s (Suc n),
           out @ polled drv dev s n @ [Call (Ev_GetSickScan dev)])
      \<and> set_variant_loop_100 drv dev s out
        = (Some e, scan_state drv s (Suc n),
           out @ polled drv dev s n @ [Call (Ev_GetSickScan dev)]
             @ (if is_SickException e then [Cerr_what (what e)] else []))
      \<and> set_variant_loop_180 drv dev s out
        = (Some e, scan_state drv s (Suc n),
           out @ polled drv dev s n @ [Call (Ev_GetSickScan dev)]))
   \<and> length (filter (\<lambda>x. x = Call (Ev_GetSickScan dev)) (polled drv dev s 10)) = 10"
proof (intro conjI impI)
  assume all: "\<forall>k < 10. recoverable (scan_result drv s k)"
  have "acquire_loop drv dev h 0 s out = (None, scan_state drv s 10, out @ polled drv dev s 10)"
    for h
    using all by (intro acquire_loop_all) simp_all
  then show "simple_app_loop drv dev s out = (None, scan_state drv s 10, out @ polled drv dev s 10)"
    and "set_variant_loop_100 drv dev s out
          = (None, scan_state drv s 10, out @ polled drv dev s 10)"
    and "set_variant_loop_180 drv dev s out
          = (None, scan_state drv s 10, out @ polled drv dev s 10)"
    by (simp_all add: simple_app_loop_def set_variant_loop_100_def set_variant_loop_180_def)
next
  assume stop: "n < 10 \<and> (\<forall>k < n. recoverable (scan_result drv s k))
        \<and> scan_result drv s n = Inl e \<and> \<not> is_SickTimeoutException e"
  have "acquire_loop drv dev h 0 s out
          = (Some e, scan_state drv s (Suc n),
             out @ polled drv dev s n @ [Call (Ev_GetSickScan dev)] @ h e)" for h
    using stop by (intro acquire_loop_stop) simp_all
  then show "simple_app_loop drv dev s out
        = (Some e, scan_state drv s (Suc n),
           out @ polled drv dev s n @ [Call (Ev_GetSickScan dev)])"
    and "set_variant_loop_100 drv dev s out
        = (Some e, scan_state drv s (Suc n),
           out @ polled drv dev s n @ [Call (Ev_GetSickScan dev)]
             @ (if is_SickException e then [Cerr_what (what e)] else []))"
    and "set_variant_loop_180 drv dev s out
        = (Some e, scan_state drv s (Suc n),
           out @ polled drv dev s n @ [Call (Ev_GetSickScan dev)])"
    by (simp_all add: simple_app_loop_def set_variant_loop_100_def set_variant_loop_180_def)
next
  show "length (filter (\<lambda>x. x = Call (Ev_GetSickScan dev)) (polled drv dev s 10)) = 10"
    by (rule polled_calls)
qed

theorem acquisition_loops_witness:
  "simple_app_loop sim_driver ''/dev/ttyUSB0'' (sim_session ''/dev/ttyUSB0'') []
     = (None, (sim_session ''/dev/ttyUSB0'')\<lparr>sim_scans := 10\<rparr>,
        [Call (Ev_GetSickScan ''/dev/ttyUSB0''), Cout_num_values 361,
         Call (Ev_GetSickScan ''/dev/ttyUSB0''), Cout_num_values 361,
         Call (Ev_GetSickScan ''/dev/ttyUSB0''), Cerr_what ''timeout'',
         Call (Ev_GetSickScan ''/dev/ttyUSB0''), Cout_num_values 361,
         Call (Ev_GetSickScan ''/dev/ttyUSB0''), Cout_num_values 361,
         Call (Ev_GetSickScan ''/dev/ttyUSB0''), Cout_num_values 361,
         Call (Ev_GetSickScan ''/dev/ttyUSB0''), Cerr_what ''timeout'',
         Call (Ev_GetSickScan ''/dev/ttyUSB0''), Cout_num_values 361,
         Call (Ev_GetSickScan ''/dev/ttyUSB0''), Cout_num_values 361,
         Call (Ev_GetSickScan ''/dev/ttyUSB0''), Cout_num_values 361])
   \<and> set_variant_loop_100 sim_driver ''/dev/ttyUSB3'' (sim_session ''/dev/ttyUSB3'') []
     = (Some (SickIOException ''read failed''), (sim_session ''/dev/ttyUSB3'')\<lparr>sim_scans := 5\<rparr>,
        [Call (Ev_GetSickScan ''/dev/ttyUSB3''), Cout_num_values 361,
         Call (Ev_GetSickScan ''/dev/ttyUSB3''), Cout_num_values 361,
         Call (Ev_GetSickScan ''/dev/ttyUSB3''), Cerr_what ''timeout'',
         Call (Ev_GetSickScan ''/dev/ttyUSB3''), Cout_num_values 361,
         Call (Ev_GetSickScan ''/dev/ttyUSB3''), Cerr_what ''read failed''])"
proof -
  have all: "\<forall>k < 10. recoverable (scan_result sim_driver (sim_session ''/dev/ttyUSB0'') k)"
    by (simp add: sim_scan_result sim_session_def)
  have some: "\<forall>k < 4. recoverable (scan_result sim_driver (sim_session ''/dev/ttyUSB3'') k)"
    by (simp add: sim_scan_result sim_session_def)
  have last: "scan_result sim_driver (sim_session ''/dev/ttyUSB3'') 4
                = Inl (SickIOException ''read failed'')"
    by (simp add: sim_scan_result sim_session_def)
  have p10: "polled sim_driver ''/dev/ttyUSB0'' (sim_session ''/dev/ttyUSB0'') 10
     = [Call (Ev_GetSickScan ''/dev/ttyUSB0''), Cout_num_values 361,
         Call (Ev_GetSickScan ''/dev/ttyUSB0''), Cout_num_values 361,
         Call (Ev_GetSickScan ''/dev/ttyUSB0''), Cerr_what ''timeout'',
         Call (Ev_GetSickScan ''/dev/ttyUSB0''), Cout_num_values 361,
         Call (Ev_GetSickScan ''/dev/ttyUSB0''), Cout_num_values 361,
         Call (Ev_GetSickScan ''/dev/ttyUSB0''), Cout_num_values 361,
         Call (Ev_GetSickScan ''/dev/ttyUSB0''), Cerr_what ''timeout'',
         Call (Ev_GetSickScan ''/dev/ttyUSB0''), Cout_num_values 361,
         Call (Ev_GetSickScan ''/dev/ttyUSB0''), Cout_num_values 361,
         Call (Ev_GetSickScan ''/dev/ttyUSB0''), Cout_num_values 361]"
    by (simp add: polled_def upt_rec sim_scan_result sim_session_def)
  have p4: "polled sim_driver ''/dev/ttyUSB3'' (sim_session ''/dev/ttyUSB3'') 4
     = [Call (Ev_GetSickScan ''/dev/ttyUSB3''), Cout_num_values 361,
         Call (Ev_GetSickScan ''/dev/ttyUSB3''), Cout_num_values 361,
         Call (Ev_GetSickScan ''/dev/ttyUSB3''), Cerr_what ''timeout'',
         Call (Ev_GetSickScan ''/dev/ttyUSB3''), Cout_num_values 361]"
    by (simp add: polled_def upt_rec sim_scan_result sim_session_def)
  from acquisition_loops [of sim_driver "sim_session ''/dev/ttyUSB0''" "''/dev/ttyUSB0''" "[]"
      0 Other_exception] all
  have "simple_app_loop sim_driver ''/dev/ttyUSB0'' (sim_session ''/dev/ttyUSB0'') []
          = (None, scan_state sim_driver (sim_session ''/dev/ttyUSB0'') 10,
             polled sim_driver ''/dev/ttyUSB0'' (sim_session ''/dev/ttyUSB0'') 10)"
    by simp
  moreover
  from acquisition_loops [of sim_driver "sim_session ''/dev/ttyUSB3''" "''/dev/ttyUSB3''" "[]"
      4 "SickIOException ''read failed''"] some last
  have "set_variant_loop_100 sim_driver ''/dev/ttyUSB3'' (sim_session ''/dev/ttyUSB3'') []
          = (Some (SickIOException ''read failed''),
             scan_state sim_driver (sim_session ''/dev/ttyUSB3'') (Suc 4),
             polled sim_driver ''/dev/ttyUSB3'' (sim_session ''/dev/ttyUSB3'') 4
               @ [Call (Ev_GetSickScan ''/dev/ttyUSB3''), Cerr_what ''read failed''])"
    by simp
  ultimately show ?thesis
    by (simp add: p10 p4 sim_scan_state) (simp add: sim_session_def)
qed

subsection \<open>The exit hook\<close>

text \<open>
  Claim C4. From a map without null pointers (every reachable state has such a map, by
  \<open>reachable_invariants\<close>) the exit hook returns, with the map empty. It has gone
  through the entries in the order of their keys and added, for each, the events of one
  \<^verbatim>\<open>cleanup\<close>: each path is deleted exactly once, \<^verbatim>\<open>Uninitialize\<close> is called exactly
  once on each object that says it is initialized, and each exception it throws gives one
  warning and stops neither the deletion of that object nor the cleanup of the entries
  after it. This holds for every driver, whatever its \<^verbatim>\<open>Uninitialize\<close> throws.
\<close>

theorem exit_tears_down_every_session:
  assumes "map_ok (sick_lms_map st)"
  shows "\<exists>evs. mexExit drv st = Some (st\<lparr>sick_lms_map := [], trace := trace st @ evs\<rparr>)
           \<and> evs = concat (map (\<lambda>e. teardown_events drv (fst e) (the (snd e))) (sick_lms_map st))
           \<and> filter is_delete evs = map (\<lambda>e. Ev_delete (fst e)) (sick_lms_map st)
           \<and> filter is_Uninitialize evs
               = map (\<lambda>e. Ev_Uninitialize (fst e))
                   (filter (\<lambda>e. IsInitialized drv (the (snd e))) (sick_lms_map st))
           \<and> length (filter (\<lambda>e. e = Ev_mexWarnMsgTxt Warn_exception_while_erasing) evs)
               = length (filter (\<lambda>e. IsInitialized drv (the (snd e))
                                       \<and> fst (Uninitialize drv (the (snd e))) \<noteq> None)
                           (sick_lms_map st))"
  using mexExit_runs [OF assms, of drv] by (simp add: exit_events_filters)

theorem exit_tears_down_every_session_witness:
  "mexExit sim_driver sim_two =
     Some \<lparr>sick_lms_map = [],
           trace = [Ev_Uninitialize ''/dev/ttyUSB0'', Ev_delete ''/dev/ttyUSB0'',
                    Ev_Uninitialize ''/dev/ttyUSB2'',
                    Ev_mexWarnMsgTxt Warn_exception_while_erasing,
                    Ev_delete ''/dev/ttyUSB2'']\<rparr>"
proof -
  have "map_ok (sick_lms_map sim_two)" by (simp add: sim_two_def map_ok_def)
  from exit_tears_down_every_session [OF this, of sim_driver] show ?thesis
    by (simp add: sim_two_def teardown_events_def sim_driver_def sim_session_def)
qed

subsection \<open>\<^verbatim>\<open>init\<close> on a path that is in the map\<close>

text \<open>
  Claim C2. An \<^verbatim>\<open>init\<close> command with well-formed arguments that names a path with an
  object \<open>old\<close> in the map, and finds fewer devices than the maximum, first tears the old
  session down: it warns if \<open>old\<close> is initialized, calls \<^verbatim>\<open>Uninitialize\<close> on it in that
  case (with a warning if that throws), deletes the object and erases the entry. Only from
  that state \<open>torn\<close>, where the path is in the map no more, does it go on to open the
  device: whatever it adds to the trace comes after the deletion, and if it adds anything,
  the construction of the new object comes first. In every state the bridge reaches through
  a driver whose objects keep their path, the events up to any point have left at most one
  live object per path, the live objects are those of the map, and the map has one entry
  per path.
\<close>

theorem init_replaces_registered_session:
  "(length p < ARG_BUFF_LENGTH \<and> nlhs \<le> 1
      \<and> length (sick_lms_map st) \<noteq> MAX_NUM_LMS_DEVICES
      \<and> map_find (sick_lms_map st) p = Some (Some old) \<longrightarrow>
      (\<exists>torn evs.
         torn = st\<lparr>sick_lms_map := map_erase p (sick_lms_map st),
                    trace := trace st
                      @ (if IsInitialized drv old
                         then [Ev_mexWarnMsgTxt (Warn_is_initialized p), Ev_Uninitialize p]
                              @ (if fst (Uninitialize drv old) = None then []
                                 else [Ev_mexWarnMsgTxt Warn_exception_while_erasing])
                         else [])
                      @ [Ev_delete p]\<rparr>
         \<and> map_find (sick_lms_map torn) p = None
         \<and> initSick drv nlhs [c, MxString p, b] st = initSick_open drv p b torn
         \<and> trace (snd (initSick drv nlhs [c, MxString p, b] st)) = trace torn @ evs
         \<and> (evs = [] \<or> (\<exists>evs'. evs = Ev_new p # evs'))))
   \<and> (keeps_device_path drv \<and> reachable drv st' \<longrightarrow>
        one_live_per_path [] (trace st')
        \<and> distinct (map fst (sick_lms_map st'))
        \<and> set (foldl live_step [] (trace st')) = set (map fst (sick_lms_map st')))"
proof (intro conjI impI)
  assume a: "length p < ARG_BUFF_LENGTH \<and> nlhs \<le> 1
      \<and> length (sick_lms_map st) \<noteq> MAX_NUM_LMS_DEVICES
      \<and> map_find (sick_lms_map st) p = Some (Some old)"
  define st0 where "st0 = (if IsInitialized drv old
      then emit [Ev_mexWarnMsgTxt (Warn_is_initialized p)] st else st)"
  define torn where "torn = st\<lparr>sick_lms_map := map_erase p (sick_lms_map st),
                    trace := trace st
                      @ (if IsInitialized drv old
                         then [Ev_mexWarnMsgTxt (Warn_is_initialized p), Ev_Uninitialize p]
                              @ (if fst (Uninitialize drv old) = None then []
                                 else [Ev_mexWarnMsgTxt Warn_exception_while_erasing])
                         else [])
                      @ [Ev_delete p]\<rparr>"
  from a have f: "map_find (sick_lms_map st) p = Some (Some old)" by simp
  then have f0: "map_find (sick_lms_map st0) p = Some (Some old)" by (simp add: st0_def)
  have c: "cleanup drv p st0 = torn"
    by (simp add: cleanup_found [OF f0] torn_def)
      (simp add: st0_def teardown_events_def emit_def)
  from a have run: "initSick drv nlhs [c, MxString p, b] st = initSick_open drv p b torn"
    by (simp add: initSick_def sickInMap_iff map_index_found [OF f] c [symmetric] st0_def)
  have n: "map_find (sick_lms_map torn) p = None" by (simp add: torn_def)
  from initSick_open_trace [of drv p b torn] obtain evs where
    "trace (snd (initSick_open drv p b torn)) = trace torn @ evs"
    "evs = [] \<or> (\<exists>evs'. evs = Ev_new p # evs')" by blast
  with run n show "\<exists>torn evs.
         torn = st\<lparr>sick_lms_map := map_erase p (sick_lms_map st),
                    trace := trace st
                      @ (if IsInitialized drv old
                         then [Ev_mexWarnMsgTxt (Warn_is_initialized p), Ev_Uninitialize p]
                              @ (if fst (Uninitialize drv old) = None then []
                                 else [Ev_mexWarnMsgTxt Warn_exception_while_erasing])
                         else [])
                      @ [Ev_delete p]\<rparr>
         \<and> map_find (sick_lms_map torn) p = None
         \<and> initSick drv nlhs [c, MxString p, b] st = initSick_open drv p b torn
         \<and> trace (snd (initSick drv nlhs [c, MxString p, b] st)) = trace torn @ evs
         \<and> (evs = [] \<or> (\<exists>evs'. evs = Ev_new p # evs'))"
    unfolding torn_def [symmetric] by auto
next
  assume r: "keeps_device_path drv \<and> reachable drv st'"
  with reachable_invariants [of drv st'] have s: "size_inv st'" and l: "live_inv drv st'"
    by simp_all
  from l show "one_live_per_path [] (trace st')" by (simp add: live_inv_def)
  from s have "sorted_wrt (<) (map fst (sick_lms_map st'))" by (simp add: size_inv_def map_ok_def)
  then show "distinct (map fst (sick_lms_map st'))" by (simp add: strict_sorted_iff)
  from l show "set (foldl live_step [] (trace st')) = set (map fst (sick_lms_map st'))"
    by (simp add: live_inv_def)
qed


theorem init_replaces_registered_session_witness:
  "snd (initSick sim_driver 1 [MxString ''init'', MxString ''/dev/ttyUSB0'', MxDouble 9600] sim_one)
     = \<lparr>sick_lms_map = [(''/dev/ttyUSB0'', Some (sim_session ''/dev/ttyUSB0''))],
        trace = trace sim_one @
          [Ev_mexWarnMsgTxt (Warn_is_initialized ''/dev/ttyUSB0''),
           Ev_Uninitialize ''/dev/ttyUSB0'', Ev_delete ''/dev/ttyUSB0'',
           Ev_new ''/dev/ttyUSB0'', Ev_mexPrintf (Print_initializing ''/dev/ttyUSB0''),
           Ev_Initialize ''/dev/ttyUSB0'' SICK_BAUD_9600,
           Ev_mexPrintf (Print_initialized ''9600bps''), Ev_mexAtExit]\<rparr>
   \<and> one_live_per_path [] (trace sim_one)"
proof -
  have l: "length ''/dev/ttyUSB0'' < ARG_BUFF_LENGTH" by (simp add: ARG_BUFF_LENGTH_def)
  have n: "length (sick_lms_map sim_one) \<noteq> MAX_NUM_LMS_DEVICES"
    by (simp add: sim_one_def MAX_NUM_LMS_DEVICES_def)
  have f: "map_find (sick_lms_map sim_one) ''/dev/ttyUSB0''
             = Some (Some (sim_session ''/dev/ttyUSB0''))"
    by (simp add: sim_one_def map_find_def)
  note t = init_replaces_registered_session [of "''/dev/ttyUSB0''" 1 sim_one
      "sim_session ''/dev/ttyUSB0''" sim_driver "MxString ''init''" "MxDouble 9600" sim_one]
  from t l n f have
    "initSick sim_driver 1 [MxString ''init'', MxString ''/dev/ttyUSB0'', MxDouble 9600] sim_one
     = initSick_open sim_driver ''/dev/ttyUSB0'' (MxDouble 9600)
         (sim_one\<lparr>sick_lms_map := map_erase ''/dev/ttyUSB0'' (sick_lms_map sim_one),
                   trace := trace sim_one
                     @ (if IsInitialized sim_driver (sim_session ''/dev/ttyUSB0'')
                        then [Ev_mexWarnMsgTxt (Warn_is_initialized ''/dev/ttyUSB0''),
                              Ev_Uninitialize ''/dev/ttyUSB0'']
                             @ (if fst (Uninitialize sim_driver (sim_session ''/dev/ttyUSB0'')) = None
                                then [] else [Ev_mexWarnMsgTxt Warn_exception_while_erasing])
                        else [])
                     @ [Ev_delete ''/dev/ttyUSB0'']\<rparr>)"
    by auto
  moreover from t sim_keeps_device_path sim_one_reachable
  have "one_live_per_path [] (trace sim_one)" by blast
  ultimately show ?thesis
    by (simp add: initSick_open_def int_of_double_def IntToSickBaud_def set_object_def emit_def
        sim_one_def map_erase_def sim_driver_def sim_session_def)
qed


end
